theory Spec2Isabelle
  imports Main "HOL-Library.AList"
begin

section \<open>Python values and their text form\<close>

text \<open>
  The metadata of a langchain \<open>Document\<close> is a Python dict from strings to values. The
  values that the views module formats into identifiers are the ones an f-string can render:
  \<open>None\<close>, booleans, integers and strings.
\<close>

datatype pyval = PNone | PBool bool | PInt int | PStr string

definition digit_char :: "nat \<Rightarrow> char" where
  "digit_char d = ''0123456789'' ! d"

text \<open>Decimal rendering of a non-negative Python int, as \<open>str(n)\<close> gives it.\<close>

fun str_nat :: "nat \<Rightarrow> string" where
  "str_nat n = (if n < 10 then [digit_char n] else str_nat (n div 10) @ [digit_char (n mod 10)])"

declare str_nat.simps [simp del]

definition str_int :: "int \<Rightarrow> string" where
  "str_int i = (if i < 0 then CHR ''-'' # str_nat (nat (- i)) else str_nat (nat i))"

text \<open>What \<open>f"{v}"\<close> puts into the string for a value \<open>v\<close>.\<close>

fun py_str :: "pyval \<Rightarrow> string" where
  "py_str PNone = ''None''"
| "py_str (PBool b) = (if b then ''True'' else ''False'')"
| "py_str (PInt i) = str_int i"
| "py_str (PStr s) = s"

definition digit_val :: "char \<Rightarrow> nat" where
  "digit_val c = of_char c - 48"

definition nat_of_str :: "string \<Rightarrow> nat" where
  "nat_of_str s = foldl (\<lambda>a c. 10 * a + digit_val c) 0 s"


section \<open>Documents and the chunk identifier\<close>

text \<open>
  A dict keeps its keys in insertion order; \<open>d[k] = v\<close> overwrites in place when the key is
  there and appends otherwise, which is \<open>AList.update\<close>. \<open>d.get(k)\<close> gives \<open>None\<close> for a
  missing key, \<open>d[k]\<close> raises \<open>KeyError\<close>.
\<close>

type_synonym pydict = "(string \<times> pyval) list"

record document =
  page_content :: string
  metadata :: pydict

datatype error =
    KeyError string
  | FileNotFoundError
  | NotADirectoryError
  | OSError
  | PermissionError
  | DuplicateIDError
  | ValueError
  | TypeError
  | IndexUnavailable

definition dict_get :: "pydict \<Rightarrow> string \<Rightarrow> pyval" where
  "dict_get d k = (case map_of d k of None \<Rightarrow> PNone | Some v \<Rightarrow> v)"

definition dict_item :: "pydict \<Rightarrow> string \<Rightarrow> error + pyval" where
  "dict_item d k = (case map_of d k of None \<Rightarrow> Inl (KeyError k) | Some v \<Rightarrow> Inr v)"

definition dict_set :: "string \<Rightarrow> pyval \<Rightarrow> pydict \<Rightarrow> pydict" where
  "dict_set k v d = AList.update k v d"

text \<open>Lines 107 to 109 of \<open>calculate_chunk_ids\<close>: the page identity \<open>f"{source}:{page}"\<close>.\<close>

definition current_page_id :: "document \<Rightarrow> string" where
  "current_page_id chunk =
     (let source = dict_get (metadata chunk) ''source'';
          page = dict_get (metadata chunk) ''page''
      in py_str source @ '':'' @ py_str page)"

text \<open>Lines 111 to 114: the counter after seeing a chunk of page identity \<open>cur\<close>.\<close>

definition next_chunk_index :: "string option \<Rightarrow> nat \<Rightarrow> string \<Rightarrow> nat" where
  "next_chunk_index last_page_id current_chunk_index cur =
     (if Some cur = last_page_id then current_chunk_index + 1 else 0)"

text \<open>Line 116: \<open>chunk_id = f"{current_page_id}:{current_chunk_index}"\<close>.\<close>

definition make_chunk_id :: "string \<Rightarrow> nat \<Rightarrow> string" where
  "make_chunk_id cur idx = cur @ '':'' @ str_nat idx"

text \<open>Line 119: \<open>chunk.metadata["id"] = chunk_id\<close>.\<close>

definition set_chunk_id :: "document \<Rightarrow> string \<Rightarrow> document" where
  "set_chunk_id chunk chunk_id = chunk\<lparr>metadata := dict_set ''id'' (PStr chunk_id) (metadata chunk)\<rparr>"

text \<open>
  The loop of \<open>calculate_chunk_ids\<close> over the list of chunks, each chunk an object of its
  own (the splitter builds one \<open>Document\<close> per chunk): the loop state is \<open>last_page_id\<close>
  (\<open>None\<close> before the first chunk) and \<open>current_chunk_index\<close>.
\<close>

fun calculate_chunk_ids_loop :: "string option \<Rightarrow> nat \<Rightarrow> document list \<Rightarrow> document list" where
  "calculate_chunk_ids_loop last_page_id current_chunk_index [] = []"
| "calculate_chunk_ids_loop last_page_id current_chunk_index (chunk # chunks) =
     (let cur = current_page_id chunk;
          idx = next_chunk_index last_page_id current_chunk_index cur
      in set_chunk_id chunk (make_chunk_id cur idx)
           # calculate_chunk_ids_loop (Some cur) idx chunks)"

definition calculate_chunk_ids :: "document list \<Rightarrow> document list" where
  "calculate_chunk_ids chunks = calculate_chunk_ids_loop None 0 chunks"

text \<open>
  The same function on an explicit object store: the argument is a list of references, the
  loop writes through each reference, and the function returns the list it was given.
\<close>

type_synonym addr = nat
type_synonym heap = "addr \<Rightarrow> document"

fun calculate_chunk_ids_loop_heap :: "string option \<Rightarrow> nat \<Rightarrow> addr list \<Rightarrow> heap \<Rightarrow> heap" where
  "calculate_chunk_ids_loop_heap last_page_id current_chunk_index [] h = h"
| "calculate_chunk_ids_loop_heap last_page_id current_chunk_index (a # as) h =
     (let chunk = h a;
          cur = current_page_id chunk;
          idx = next_chunk_index last_page_id current_chunk_index cur
      in calculate_chunk_ids_loop_heap (Some cur) idx as
           (h(a := set_chunk_id chunk (make_chunk_id cur idx))))"

definition calculate_chunk_ids_heap :: "addr list \<Rightarrow> heap \<Rightarrow> addr list \<times> heap" where
  "calculate_chunk_ids_heap chunks h = (chunks, calculate_chunk_ids_loop_heap None 0 chunks h)"

text \<open>The identifier a chunk carries, \<open>None\<close> when it has none.\<close>

definition chunk_id :: "document \<Rightarrow> pyval" where
  "chunk_id chunk = dict_get (metadata chunk) ''id''"

text \<open>
  The specification's wording of the counter: at the first chunk it is 0; at a later chunk
  it is one more than at the chunk before when both have the same page identity, and 0
  when the page identity changes. \<open>pids\<close> is the list of page identities.
\<close>

fun spec_chunk_index :: "string list \<Rightarrow> nat \<Rightarrow> nat" where
  "spec_chunk_index pids 0 = 0"
| "spec_chunk_index pids (Suc i) =
     (if pids ! Suc i = pids ! i then spec_chunk_index pids i + 1 else 0)"

text \<open>
  The (source, page) pair of a chunk, as \<open>metadata.get\<close> reads it, and the page identity it
  is rendered to.
\<close>

definition page_key :: "document \<Rightarrow> pyval \<times> pyval" where
  "page_key chunk = (dict_get (metadata chunk) ''source'', dict_get (metadata chunk) ''page'')"

definition render_page_key :: "pyval \<times> pyval \<Rightarrow> string" where
  "render_page_key key = py_str (fst key) @ '':'' @ py_str (snd key)"

text \<open>
  Page-grouped order of a sequence of page keys: once the run of a key ends, that key does
  not come back.
\<close>

fun page_grouped :: "'a list \<Rightarrow> bool" where
  "page_grouped [] = True"
| "page_grouped (p # ps) = (p \<notin> set (dropWhile (\<lambda>q. q = p) ps) \<and> page_grouped ps)"


section \<open>The vector store\<close>

text \<open>
  The Chroma collection is outside the repository. The views module uses three of its
  operations: \<open>db.get(include=[])["ids"]\<close>, \<open>db.add_documents(chunks, ids=ids)\<close> and
  \<open>db.similarity_search_with_score\<close>. The collection is keyed by id, so it is an
  association list from ids to the stored documents, in insertion order.
\<close>

type_synonym store = "(pyval \<times> document) list"

definition db_get_ids :: "store \<Rightarrow> pyval list" where
  "db_get_ids db = map fst db"

text \<open>
  \<open>add_documents\<close> validates the whole batch before it writes. A batch in which an id
  occurs twice is refused with \<open>DuplicateIDError\<close>; a document with a metadata value \<open>None\<close>
  is refused with \<open>ValueError\<close>; nothing of a refused batch is stored. An accepted batch
  goes through the collection's upsert, entry by entry: an id that is there is overwritten
  in place, a new one is appended.
\<close>

definition storable :: "document \<Rightarrow> bool" where
  "storable d = (PNone \<notin> set (map snd (metadata d)))"

definition db_add_documents :: "document list \<Rightarrow> pyval list \<Rightarrow> store \<Rightarrow> error + store" where
  "db_add_documents documents ids db =
     (if \<not> distinct ids then Inl DuplicateIDError
      else if \<not> list_all storable documents then Inl ValueError
      else Inr (fold (\<lambda>(i, d). AList.update i d) (zip ids documents) db))"


section \<open>The console and the path of the index\<close>

text \<open>
  What can be at \<open>CHROMA_PATH\<close>: nothing; a directory tree holding the persisted
  collection; such a tree that the process may not modify; a regular file; a symbolic
  link to any of these (to nothing, when the link dangles).
\<close>

datatype path_state =
    Absent
  | Directory store
  | ProtectedDirectory store
  | RegularFile
  | Symlink path_state

text \<open>
  The part of the world the module touches: the state of \<open>CHROMA_PATH\<close> and the lines
  printed to standard output. A call that can raise returns the exception, if any,
  together with the world as the call leaves it.
\<close>

record world =
  chroma :: path_state
  stdout :: "string list"

definition CHROMA_PATH :: string where
  "CHROMA_PATH = ''chroma''"

definition print :: "string \<Rightarrow> world \<Rightarrow> world" where
  "print line w = w\<lparr>stdout := stdout w @ [line]\<rparr>"

text \<open>\<open>os.path.exists\<close> follows symbolic links: a dangling link does not exist.\<close>

fun path_exists :: "path_state \<Rightarrow> bool" where
  "path_exists Absent = False"
| "path_exists (Directory db) = True"
| "path_exists (ProtectedDirectory db) = True"
| "path_exists RegularFile = True"
| "path_exists (Symlink target) = path_exists target"

text \<open>
  \<open>shutil.rmtree\<close> removes a directory tree. It raises \<open>FileNotFoundError\<close> when there is
  nothing at the path, \<open>NotADirectoryError\<close> on a regular file, \<open>OSError\<close> on a symbolic link
  and \<open>PermissionError\<close> on a tree the process may not modify; when it raises, the path is
  left as it was.
\<close>

fun rmtree :: "path_state \<Rightarrow> error + path_state" where
  "rmtree Absent = Inl FileNotFoundError"
| "rmtree (Directory db) = Inr Absent"
| "rmtree (ProtectedDirectory db) = Inl PermissionError"
| "rmtree RegularFile = Inl NotADirectoryError"
| "rmtree (Symlink target) = Inl OSError"

text \<open>
  Lines 128 and 129. The result is the exception that escapes, if any, and the world
  afterwards.
\<close>

definition clear_database :: "world \<Rightarrow> error option \<times> world" where
  "clear_database w =
     (if path_exists (chroma w) then
        (case rmtree (chroma w) of
           Inl e \<Rightarrow> (Some e, w)
         | Inr p \<Rightarrow> (None, w\<lparr>chroma := p\<rparr>))
      else (None, w))"

text \<open>
  \<open>Chroma(persist_directory=CHROMA_PATH, ...)\<close>: the persistent client opens the collection
  under the directory, through symbolic links, and creates an empty one when the directory
  is missing. On a regular file, a dangling link or a tree it may not write to, the client
  cannot open its database; \<open>IndexUnavailable\<close> stands for the exception it raises then.
  The result is the collection read and the state of the path afterwards.
\<close>

fun chroma_open :: "path_state \<Rightarrow> error + store \<times> path_state" where
  "chroma_open Absent = Inr ([], Directory [])"
| "chroma_open (Directory db) = Inr (db, Directory db)"
| "chroma_open (ProtectedDirectory db) = Inl IndexUnavailable"
| "chroma_open RegularFile = Inl IndexUnavailable"
| "chroma_open (Symlink Absent) = Inl IndexUnavailable"
| "chroma_open (Symlink target) =
     (case chroma_open target of
        Inl e \<Rightarrow> Inl e
      | Inr (db, target') \<Rightarrow> Inr (db, Symlink target'))"

text \<open>The collection written back under an opened path.\<close>

fun chroma_persist :: "store \<Rightarrow> path_state \<Rightarrow> path_state" where
  "chroma_persist db (Directory old) = Directory db"
| "chroma_persist db (Symlink target) = Symlink (chroma_persist db target)"
| "chroma_persist db p = p"

text \<open>The collection a client finds at \<open>CHROMA_PATH\<close>: no entry when there is none to open.\<close>

definition index_contents :: "world \<Rightarrow> store" where
  "index_contents w = (case chroma_open (chroma w) of Inl e \<Rightarrow> [] | Inr (db, p) \<Rightarrow> db)"


section \<open>Ingestion\<close>

text \<open>
  Lines 79 to 82 of \<open>add_to_chroma\<close>: the loop that collects the chunks whose
  \<open>metadata["id"]\<close> is not among the existing ids. The subscript raises \<open>KeyError\<close> on a
  chunk without an id.
\<close>

fun collect_new_chunks :: "pyval list \<Rightarrow> document list \<Rightarrow> document list \<Rightarrow> error + document list" where
  "collect_new_chunks existing_ids new_chunks [] = Inr new_chunks"
| "collect_new_chunks existing_ids new_chunks (chunk # chunks) =
     (case dict_item (metadata chunk) ''id'' of
        Inl e \<Rightarrow> Inl e
      | Inr i \<Rightarrow>
          if i \<notin> set existing_ids
          then collect_new_chunks existing_ids (new_chunks @ [chunk]) chunks
          else collect_new_chunks existing_ids new_chunks chunks)"

text \<open>Line 86: \<open>[chunk.metadata["id"] for chunk in new_chunks]\<close>.\<close>

fun ids_of_chunks :: "document list \<Rightarrow> error + pyval list" where
  "ids_of_chunks [] = Inr []"
| "ids_of_chunks (chunk # chunks) =
     (case dict_item (metadata chunk) ''id'' of
        Inl e \<Rightarrow> Inl e
      | Inr i \<Rightarrow> (case ids_of_chunks chunks of Inl e \<Rightarrow> Inl e | Inr ids \<Rightarrow> Inr (i # ids)))"

definition msg_existing :: "nat \<Rightarrow> string" where
  "msg_existing n = ''Number of existing documents in DB: '' @ str_nat n"

text \<open>The two progress lines start with an emoji, written here as its UTF-8 bytes.\<close>

definition msg_adding :: "nat \<Rightarrow> string" where
  "msg_adding n = [CHR 0xF0, CHR 0x9F, CHR 0x91, CHR 0x89] @ '' Adding new documents: '' @ str_nat n"

definition msg_no_new :: string where
  "msg_no_new = [CHR 0xE2, CHR 0x9C, CHR 0x85] @ '' No new documents to add''"

definition add_to_chroma :: "document list \<Rightarrow> world \<Rightarrow> error option \<times> world" where
  "add_to_chroma chunks w =
     (case chroma_open (chroma w) of
        Inl e \<Rightarrow> (Some e, w)
      | Inr (db, p) \<Rightarrow>
          (let w1 = w\<lparr>chroma := p\<rparr>;
               chunks_with_ids = calculate_chunk_ids chunks;
               existing_ids = db_get_ids db;
               w2 = print (msg_existing (length (remdups existing_ids))) w1
           in case collect_new_chunks existing_ids [] chunks_with_ids of
                Inl e \<Rightarrow> (Some e, w2)
              | Inr new_chunks \<Rightarrow>
                  if length new_chunks \<noteq> 0 then
                    (let w3 = print (msg_adding (length new_chunks)) w2
                     in case ids_of_chunks new_chunks of
                          Inl e \<Rightarrow> (Some e, w3)
                        | Inr new_chunk_ids \<Rightarrow>
                            (case db_add_documents new_chunks new_chunk_ids db of
                               Inl e \<Rightarrow> (Some e, w3)
                             | Inr db' \<Rightarrow> (None, w3\<lparr>chroma := chroma_persist db' p\<rparr>)))
                  else (None, print msg_no_new w2)))"

text \<open>
  The chunks that a run of \<open>add_to_chroma\<close> hands to the store, in the specification's
  words: the identified chunks whose id is not among the stored ids.
\<close>

definition unseen_chunks :: "document list \<Rightarrow> store \<Rightarrow> document list" where
  "unseen_chunks chunks db =
     filter (\<lambda>chunk. chunk_id chunk \<notin> set (db_get_ids db)) (calculate_chunk_ids chunks)"


section \<open>Retrieval and answer\<close>

text \<open>
  The collaborators of the module that live outside the repository: the PDF loader, the
  text splitter, the ranking of the stored documents against a query, the prompt template
  engine and the language model. They are parameters.
\<close>

record 'score env =
  load_documents :: "document list"
  split_documents :: "document list \<Rightarrow> document list"
  nearest_neighbours :: "store \<Rightarrow> pyval \<Rightarrow> int \<Rightarrow> (document \<times> 'score) list"
  format_template :: "string \<Rightarrow> string \<Rightarrow> pyval \<Rightarrow> string"
  model_invoke :: "string \<Rightarrow> string"

text \<open>
  \<open>db.similarity_search_with_score(message, n_results)\<close>: the collection refuses a number
  of results that is zero or negative with \<open>TypeError\<close>, finds nothing in an empty
  collection, and otherwise returns the ranked hits, closest first.
\<close>

definition similarity_search_with_score ::
  "'score env \<Rightarrow> store \<Rightarrow> pyval \<Rightarrow> int \<Rightarrow> error + (document \<times> 'score) list" where
  "similarity_search_with_score E db message n_results =
     (if n_results \<le> 0 then Inl TypeError
      else if db = [] then Inr []
      else Inr (nearest_neighbours E db message n_results))"

definition nl :: string where
  "nl = [CHR 0x0A]"

definition PROMPT_TEMPLATE :: string where
  "PROMPT_TEMPLATE =
     nl @ ''Answer the question based only on the following context:'' @ nl @ nl @
     ''{context}'' @ nl @ nl @ ''---'' @ nl @ nl @
     ''Answer the question based on the above context: {question}'' @ nl"

definition context_delimiter :: string where
  "context_delimiter = nl @ nl @ ''---'' @ nl @ nl"

text \<open>\<open>sep.join(items)\<close>: the first item, then each further item after a separator.\<close>

definition py_join :: "string \<Rightarrow> string list \<Rightarrow> string" where
  "py_join sep items =
     (case items of [] \<Rightarrow> [] | x # xs \<Rightarrow> foldl (\<lambda>acc y. acc @ sep @ y) x xs)"

text \<open>
  What \<open>f"{sources}"\<close> puts into the string for a list: the \<open>repr\<close> of each element, separated
  by a comma and a space, in square brackets. The \<open>repr\<close> of a string is quoted with single
  quotes, or with double quotes when it holds a single quote and no double quote;
  backslash, the quote and the control characters are escaped. Bytes of characters beyond
  ASCII are kept.
\<close>

definition hex_digit :: "nat \<Rightarrow> char" where
  "hex_digit d = ''0123456789abcdef'' ! d"

definition repr_char :: "char \<Rightarrow> char \<Rightarrow> string" where
  "repr_char quote c =
     (if c = quote \<or> c = CHR 0x5C then [CHR 0x5C, c]
      else if c = CHR 0x09 then [CHR 0x5C, CHR ''t'']
      else if c = CHR 0x0A then [CHR 0x5C, CHR ''n'']
      else if c = CHR 0x0D then [CHR 0x5C, CHR ''r'']
      else if (of_char c :: nat) < 32 \<or> (of_char c :: nat) = 127
      then [CHR 0x5C, CHR ''x'', hex_digit (of_char c div 16), hex_digit (of_char c mod 16)]
      else [c])"

definition py_repr_str :: "string \<Rightarrow> string" where
  "py_repr_str s =
     (let quote = (if CHR 0x27 \<in> set s \<and> CHR 0x22 \<notin> set s then CHR 0x22 else CHR 0x27)
      in quote # concat (map (repr_char quote) s) @ [quote])"

fun py_repr :: "pyval \<Rightarrow> string" where
  "py_repr (PStr s) = py_repr_str s"
| "py_repr v = py_str v"

definition py_list_str :: "pyval list \<Rightarrow> string" where
  "py_list_str vs = ''['' @ py_join '', '' (map py_repr vs) @ '']''"

text \<open>The values of the local variables of one call of \<open>ask_chroma\<close>.\<close>

record ask_locals =
  context_text :: string
  prompt :: string
  answer :: string
  sources :: "pyval list"
  formatted_response :: string

text \<open>
  Lines 141 and 144: opening the collection and searching it. Either can raise; the
  result is the list of (document, score) pairs otherwise.
\<close>

definition retrieve :: "'score env \<Rightarrow> pyval \<Rightarrow> int \<Rightarrow> world \<Rightarrow> error + (document \<times> 'score) list" where
  "retrieve E message n_results w =
     (case chroma_open (chroma w) of
        Inl e \<Rightarrow> Inl e
      | Inr (db, p) \<Rightarrow> similarity_search_with_score E db message n_results)"

definition ask_chroma ::
  "'score env \<Rightarrow> pyval \<Rightarrow> int \<Rightarrow> world \<Rightarrow> (error + ask_locals) \<times> world" where
  "ask_chroma E message n_results w =
     (case chroma_open (chroma w) of
        Inl e \<Rightarrow> (Inl e, w)
      | Inr (db, p) \<Rightarrow>
          (let w1 = w\<lparr>chroma := p\<rparr>
           in case similarity_search_with_score E db message n_results of
                Inl e \<Rightarrow> (Inl e, w1)
              | Inr results \<Rightarrow>
                  (let context_text =
                         py_join context_delimiter (map (\<lambda>(doc, score). page_content doc) results);
                       prompt = format_template E PROMPT_TEMPLATE context_text message;
                       answer = model_invoke E prompt;
                       sources = map (\<lambda>(doc, score). dict_get (metadata doc) ''id'') results;
                       formatted_response =
                         ''Response: '' @ answer @ ''<br>Sources: '' @ py_list_str sources
                   in (Inr \<lparr>context_text = context_text, prompt = prompt, answer = answer,
                             sources = sources, formatted_response = formatted_response\<rparr>,
                       print formatted_response w1))))"

text \<open>
  The specification's wording of the context block: the texts in the order of the results,
  with the delimiter between consecutive texts.
\<close>

fun spec_context_block :: "string \<Rightarrow> string list \<Rightarrow> string" where
  "spec_context_block sep [] = []"
| "spec_context_block sep [t] = t"
| "spec_context_block sep (t # u # us) = t @ sep @ spec_context_block sep (u # us)"


section \<open>The request handler\<close>

definition populate_database :: "'score env \<Rightarrow> world \<Rightarrow> error option \<times> world" where
  "populate_database E w =
     (let documents = load_documents E;
          chunks = split_documents E documents
      in add_to_chroma chunks w)"

text \<open>
  A request has a method and the POST field \<open>message\<close> (\<open>None\<close> when the field is missing).
  The handler answers with a JSON object of two fields or renders the page; an exception
  of the operation it dispatches to escapes from it.
\<close>

record request =
  request_method :: string
  post_message :: pyval

datatype response = JsonResponse pyval string | Render string

definition chatbot :: "'score env \<Rightarrow> request \<Rightarrow> world \<Rightarrow> (error + response) \<times> world" where
  "chatbot E req w =
     (if request_method req = ''POST'' then
        (let message = post_message req in
         if message = PStr ''Populate'' then
           (case populate_database E (print ''Populate Database'' w) of
              (Some e, w') \<Rightarrow> (Inl e, w')
            | (None, w') \<Rightarrow> (Inr (JsonResponse message ''Database populated''), w'))
         else if message = PStr ''Clear'' then
           (case clear_database (print ''Clear Database'' w) of
              (Some e, w') \<Rightarrow> (Inl e, w')
            | (None, w') \<Rightarrow> (Inr (JsonResponse message ''Database cleared''), w'))
         else
           (case ask_chroma E message 4 w of
              (Inl e, w') \<Rightarrow> (Inl e, w')
            | (Inr locals, w') \<Rightarrow> (Inr (JsonResponse message (formatted_response locals)), w')))
      else (Inr (Render ''chatbot.html''), w))"


section \<open>Auxiliary notions for the proofs\<close>

text \<open>The counters the loop of \<open>calculate_chunk_ids\<close> goes through, on the page identities alone.\<close>

fun loop_indices :: "string option \<Rightarrow> nat \<Rightarrow> string list \<Rightarrow> nat list" where
  "loop_indices l n [] = []"
| "loop_indices l n (p # ps) =
     (let idx = next_chunk_index l n p in idx # loop_indices (Some p) idx ps)"

definition has_id :: "document \<Rightarrow> bool" where
  "has_id c = (map_of (metadata c) ''id'' \<noteq> None)"

text \<open>
  One run of \<open>add_to_chroma\<close> on an opened collection, in closed form: the exception of the
  run, the collection afterwards and the lines printed.
\<close>

definition run_error :: "document list \<Rightarrow> store \<Rightarrow> error option" where
  "run_error chunks db =
     (let new = unseen_chunks chunks db
      in if \<not> distinct (map chunk_id new) then Some DuplicateIDError
         else if \<not> list_all storable new then Some ValueError
         else None)"

definition stored_after :: "document list \<Rightarrow> store \<Rightarrow> store" where
  "stored_after chunks db =
     (if run_error chunks db = None
      then db @ map (\<lambda>c. (chunk_id c, c)) (unseen_chunks chunks db)
      else db)"

definition printed_by_add :: "document list \<Rightarrow> store \<Rightarrow> string list" where
  "printed_by_add chunks db =
     [msg_existing (length (remdups (db_get_ids db))),
      (let n = length (unseen_chunks chunks db) in if n \<noteq> 0 then msg_adding n else msg_no_new)]"

text \<open>The local variables of \<open>ask_chroma\<close> once the search has returned its results.\<close>

definition answer_locals :: "'score env \<Rightarrow> pyval \<Rightarrow> (document \<times> 'score) list \<Rightarrow> ask_locals" where
  "answer_locals E message results =
     (let context_text = py_join context_delimiter (map (\<lambda>(doc, score). page_content doc) results);
          prompt = format_template E PROMPT_TEMPLATE context_text message;
          answer = model_invoke E prompt;
          sources = map (\<lambda>(doc, score). dict_get (metadata doc) ''id'') results;
          formatted_response = ''Response: '' @ answer @ ''<br>Sources: '' @ py_list_str sources
      in \<lparr>context_text = context_text, prompt = prompt, answer = answer,
           sources = sources, formatted_response = formatted_response\<rparr>)"


section \<open>Example inputs\<close>

definition mk_chunk :: "string \<Rightarrow> string \<Rightarrow> int \<Rightarrow> document" where
  "mk_chunk text source page =
     \<lparr>page_content = text, metadata = [(''source'', PStr source), (''page'', PInt page)]\<rparr>"

text \<open>Three chunks of page 0 of document \<open>A\<close>, and a sequence that changes page.\<close>

definition ex_chunks :: "document list" where
  "ex_chunks = [mk_chunk ''alpha'' ''A'' 0, mk_chunk ''beta'' ''A'' 0, mk_chunk ''gamma'' ''A'' 0]"

definition ex_two_pages :: "document list" where
  "ex_two_pages = [mk_chunk ''alpha'' ''A'' 0, mk_chunk ''beta'' ''A'' 0, mk_chunk ''gamma'' ''A'' 1]"

definition ex_heap :: heap where
  "ex_heap = (\<lambda>a. mk_chunk [] ''Z'' 9)(0 := mk_chunk ''alpha'' ''A'' 0, 1 := mk_chunk ''beta'' ''A'' 0)"

text \<open>Chunks of page 0 of \<open>A\<close> on both sides of a chunk of page 1: the pages interleave.\<close>

definition ex_interleaved :: "document list" where
  "ex_interleaved = [mk_chunk ''alpha'' ''A'' 0, mk_chunk ''beta'' ''A'' 1, mk_chunk ''gamma'' ''A'' 0]"

text \<open>A chunk with a metadata value \<open>None\<close>.\<close>

definition ex_none_value :: "document list" where
  "ex_none_value =
     [\<lparr>page_content = ''alpha'',
       metadata = [(''source'', PStr ''A''), (''page'', PInt 0), (''author'', PNone)]\<rparr>]"

text \<open>
  Three chunks whose (source, page) pairs are pairwise distinct: the page of the first is
  the integer 1, the page of the third is the string \<open>1\<close>.
\<close>

definition ex_mixed_pages :: "document list" where
  "ex_mixed_pages =
     [\<lparr>page_content = ''alpha'', metadata = [(''source'', PStr ''A''), (''page'', PInt 1)]\<rparr>,
      \<lparr>page_content = ''beta'', metadata = [(''source'', PStr ''B''), (''page'', PInt 0)]\<rparr>,
      \<lparr>page_content = ''gamma'', metadata = [(''source'', PStr ''A''), (''page'', PStr ''1'')]\<rparr>]"

definition ex_store :: store where
  "ex_store =
     [(PStr ''A:0:0'', set_chunk_id (mk_chunk ''alpha'' ''A'' 0) ''A:0:0''),
      (PStr ''A:0:1'', set_chunk_id (mk_chunk ''beta'' ''A'' 0) ''A:0:1'')]"

definition ex_world :: world where
  "ex_world = \<lparr>chroma = Directory ex_store, stdout = []\<rparr>"

definition ex_absent_world :: world where
  "ex_absent_world = \<lparr>chroma = Absent, stdout = []\<rparr>"


text \<open>A store with an entry whose document has no id in its metadata.\<close>

definition ex_world_no_id :: world where
  "ex_world_no_id =
     \<lparr>chroma = Directory [(PStr ''A:0:0'', set_chunk_id (mk_chunk ''alpha'' ''A'' 0) ''A:0:0''),
                           (PStr ''legacy'', mk_chunk ''beta'' ''A'' 0)],
      stdout = []\<rparr>"

text \<open>
  Collaborators for the examples: the splitter yields the three chunks of \<open>ex_chunks\<close>, the
  ranking returns the first \<open>k\<close> entries of the collection, the model answers \<open>ok\<close>.
\<close>

definition ex_env :: "nat env" where
  "ex_env =
     \<lparr>load_documents = [mk_chunk ''alpha beta gamma'' ''A'' 0],
      split_documents = (\<lambda>documents. ex_chunks),
      nearest_neighbours = (\<lambda>db message k. map (\<lambda>(i, d). (d, 0)) (take (nat k) db)),
      format_template = (\<lambda>template context question. context @ ''?'' @ py_str question),
      model_invoke = (\<lambda>prompt. ''ok'')\<rparr>"

definition populate_request :: request where
  "populate_request = \<lparr>request_method = ''POST'', post_message = PStr ''Populate''\<rparr>"

section \<open>Decimal rendering is injective and has no colon\<close>

lemma digit_cases:
  "d < 10 \<Longrightarrow> d = 0 \<or> d = 1 \<or> d = 2 \<or> d = 3 \<or> d = 4 \<or> d = 5 \<or> d = 6 \<or> d = 7 \<or> d = 8 \<or> d = (9::nat)"
  by arith

lemma digit_val_char: "d < 10 \<Longrightarrow> digit_val (digit_char d) = d"
  using digit_cases[of d] by (auto simp: digit_val_def digit_char_def)

lemma digit_not_colon: "d < 10 \<Longrightarrow> digit_char d \<noteq> CHR '':''"
  using digit_cases[of d] by (auto simp: digit_char_def)

lemma nat_of_str_nat: "nat_of_str (str_nat n) = n"
proof (induction n rule: str_nat.induct)
  case (1 n)
  show ?case
  proof (cases "n < 10")
    case True
    then show ?thesis by (simp add: str_nat.simps[of n] nat_of_str_def digit_val_char)
  next
    case False
    with 1 have "nat_of_str (str_nat (n div 10)) = n div 10" by simp
    with False show ?thesis
      by (simp add: str_nat.simps[of n] nat_of_str_def digit_val_char)
  qed
qed

lemma str_nat_inj: "str_nat m = str_nat n \<Longrightarrow> m = n"
  by (metis nat_of_str_nat)

lemma colon_notin_str_nat: "CHR '':'' \<notin> set (str_nat n)"
proof (induction n rule: str_nat.induct)
  case (1 n)
  show ?case
  proof (cases "n < 10")
    case True
    then show ?thesis using digit_not_colon[of n] by (simp add: str_nat.simps[of n])
  next
    case False
    with 1 have "CHR '':'' \<notin> set (str_nat (n div 10))" by simp
    with False show ?thesis using digit_not_colon[of "n mod 10"]
      by (simp add: str_nat.simps[of n])
  qed
qed


lemma minus_notin_str_nat: "CHR ''-'' \<notin> set (str_nat n)"
proof (induction n rule: str_nat.induct)
  case (1 n)
  have d: "\<And>d. d < 10 \<Longrightarrow> digit_char d \<noteq> CHR ''-''"
    subgoal for d using digit_cases[of d] by (auto simp: digit_char_def) done
  show ?case
  proof (cases "n < 10")
    case True
    then show ?thesis using d[of n] by (simp add: str_nat.simps[of n])
  next
    case False
    with 1 have "CHR ''-'' \<notin> set (str_nat (n div 10))" by simp
    with False show ?thesis using d[of "n mod 10"]
      by (simp add: str_nat.simps[of n])
  qed
qed

lemma str_nat_nonempty: "str_nat n \<noteq> []"
  by (simp add: str_nat.simps[of n])

lemma minus_cons_neq_str_nat: "str_nat n \<noteq> CHR ''-'' # xs"
  using minus_notin_str_nat[of n] by (metis list.set_intros(1))

lemma str_int_inj: "str_int i = str_int j \<Longrightarrow> i = j"
proof -
  assume eq: "str_int i = str_int j"
  show ?thesis
  proof (cases "i < 0"; cases "j < 0")
    assume "i < 0" "j < 0"
    with eq have "nat (- i) = nat (- j)" by (simp add: str_int_def str_nat_inj)
    with \<open>i < 0\<close> \<open>j < 0\<close> show ?thesis by simp
  next
    assume "i < 0" "\<not> j < 0"
    with eq minus_cons_neq_str_nat[of "nat j" "str_nat (nat (- i))"] show ?thesis
      by (simp add: str_int_def)
  next
    assume "\<not> i < 0" "j < 0"
    with eq minus_cons_neq_str_nat[of "nat i" "str_nat (nat (- j))"] show ?thesis
      by (simp add: str_int_def)
  next
    assume "\<not> i < 0" "\<not> j < 0"
    with eq have "nat i = nat j" by (simp add: str_int_def str_nat_inj)
    with \<open>\<not> i < 0\<close> \<open>\<not> j < 0\<close> show ?thesis by simp
  qed
qed
  
lemma colon_notin_str_int: "CHR '':'' \<notin> set (str_int i)"
  by (simp add: str_int_def colon_notin_str_nat)

lemma split_at_last_sep:
  assumes "xs @ c # ys = xs' @ c # ys'" and "c \<notin> set ys" and "c \<notin> set ys'"
  shows "xs = xs' \<and> ys = ys'"
proof -
  have a: "takeWhile (\<lambda>x. x \<noteq> c) (rev (xs @ c # ys)) = rev ys"
    using assms(2) by (auto simp: takeWhile_tail)
  have b: "takeWhile (\<lambda>x. x \<noteq> c) (rev (xs' @ c # ys')) = rev ys'"
    using assms(3) by (auto simp: takeWhile_tail)
  from a b assms(1) have "ys = ys'" by simp
  with assms(1) show ?thesis by simp
qed

lemma make_chunk_id_inj:
  "make_chunk_id p m = make_chunk_id q n \<Longrightarrow> p = q \<and> m = n"
  unfolding make_chunk_id_def
  using split_at_last_sep[of p "CHR '':''" "str_nat m" q "str_nat n"]
  by (auto simp: colon_notin_str_nat dest: str_nat_inj)

lemma typed_page_id_inj:
  assumes "py_str (PStr s) @ '':'' @ py_str (PInt p) = py_str (PStr t) @ '':'' @ py_str (PInt q)"
  shows "s = t \<and> p = q"
  using split_at_last_sep[of s "CHR '':''" "str_int p" t "str_int q"] assms
  by (auto simp: colon_notin_str_int dest: str_int_inj)


section \<open>The identifiers assigned by \<open>calculate_chunk_ids\<close>\<close>

lemma length_loop [simp]:
  "length (calculate_chunk_ids_loop l n chunks) = length chunks"
  by (induction chunks arbitrary: l n) (simp_all add: Let_def)

lemma current_page_id_set_chunk_id [simp]:
  "current_page_id (set_chunk_id c s) = current_page_id c"
  by (simp add: current_page_id_def set_chunk_id_def dict_set_def dict_get_def update_conv')

lemma page_content_set_chunk_id [simp]:
  "page_content (set_chunk_id c s) = page_content c"
  by (simp add: set_chunk_id_def)

lemma chunk_id_set_chunk_id [simp]:
  "chunk_id (set_chunk_id c s) = PStr s"
  by (simp add: chunk_id_def set_chunk_id_def dict_set_def dict_get_def update_conv')

lemma set_chunk_id_twice [simp]:
  "set_chunk_id (set_chunk_id c s) t = set_chunk_id c t"
  by (simp add: set_chunk_id_def dict_set_def)


lemma length_loop_indices [simp]: "length (loop_indices l n ps) = length ps"
  by (induction ps arbitrary: l n) (simp_all add: Let_def)

lemma loop_as_map:
  "calculate_chunk_ids_loop l n chunks =
     map (\<lambda>(c, idx). set_chunk_id c (make_chunk_id (current_page_id c) idx))
         (zip chunks (loop_indices l n (map current_page_id chunks)))"
  by (induction chunks arbitrary: l n) (simp_all add: Let_def)

lemma loop_indices_Suc:
  "Suc i < length ps \<Longrightarrow>
     loop_indices l n ps ! Suc i =
       (if ps ! Suc i = ps ! i then loop_indices l n ps ! i + 1 else 0)"
proof (induction ps arbitrary: l n i)
  case Nil
  then show ?case by simp
next
  case (Cons p ps)
  show ?case
  proof (cases i)
    case 0
    with Cons.prems show ?thesis
      by (cases ps) (auto simp: Let_def next_chunk_index_def)
  next
    case (Suc j)
    with Cons.prems have "Suc j < length ps" by simp
    from Cons.IH[OF this] Suc show ?thesis by (simp add: Let_def)
  qed
qed

lemma loop_indices_first:
  "ps \<noteq> [] \<Longrightarrow> loop_indices None n ps ! 0 = 0"
  by (cases ps) (simp_all add: Let_def next_chunk_index_def)

lemma loop_indices_spec:
  "i < length ps \<Longrightarrow> loop_indices None 0 ps ! i = spec_chunk_index ps i"
proof (induction i)
  case 0
  then show ?case using loop_indices_first[of ps 0] by auto
next
  case (Suc i)
  then show ?case by (simp add: loop_indices_Suc)
qed

lemma calculate_chunk_ids_nth:
  assumes "i < length chunks"
  shows "calculate_chunk_ids chunks ! i =
           set_chunk_id (chunks ! i)
             (make_chunk_id (current_page_id (chunks ! i))
                (spec_chunk_index (map current_page_id chunks) i))"
  using assms by (simp add: calculate_chunk_ids_def loop_as_map loop_indices_spec)


text \<open>
  Claim C2. For every chunk sequence, \<open>calculate_chunk_ids\<close> keeps the length of the
  sequence, and the id it writes into the chunk at position \<open>i\<close> is the string
  \<open>source:page:counter\<close>, where \<open>source\<close> and \<open>page\<close> are the chunk's own metadata as an
  f-string renders them and the counter is the one of the specification: 0 at the first
  chunk and whenever the page identity differs from the previous chunk's, one more than
  the previous counter otherwise.
\<close>

theorem C2_chunk_id_follows_algorithm:
  "length (calculate_chunk_ids chunks) = length chunks \<and>
   (\<forall>i < length chunks.
      map_of (metadata (calculate_chunk_ids chunks ! i)) ''id'' =
        Some (PStr (py_str (dict_get (metadata (chunks ! i)) ''source'') @ '':'' @
                    py_str (dict_get (metadata (chunks ! i)) ''page'') @ '':'' @
                    str_nat (spec_chunk_index (map current_page_id chunks) i))))"
proof (intro conjI allI impI)
  show "length (calculate_chunk_ids chunks) = length chunks"
    by (simp add: calculate_chunk_ids_def)
next
  fix i assume "i < length chunks"
  then show "map_of (metadata (calculate_chunk_ids chunks ! i)) ''id'' =
        Some (PStr (py_str (dict_get (metadata (chunks ! i)) ''source'') @ '':'' @
                    py_str (dict_get (metadata (chunks ! i)) ''page'') @ '':'' @
                    str_nat (spec_chunk_index (map current_page_id chunks) i)))"
    by (simp add: calculate_chunk_ids_nth set_chunk_id_def dict_set_def update_conv'
                  make_chunk_id_def current_page_id_def Let_def)
qed

lemmas example_simps =
  ex_chunks_def ex_two_pages_def mk_chunk_def current_page_id_def dict_get_def
  str_int_def str_nat.simps digit_char_def

theorem C2_chunk_id_follows_algorithm_witness:
  "(2::nat) < length ex_two_pages \<and>
   map_of (metadata (calculate_chunk_ids ex_two_pages ! 1)) ''id'' = Some (PStr ''A:0:1'') \<and>
   map_of (metadata (calculate_chunk_ids ex_two_pages ! 2)) ''id'' = Some (PStr ''A:1:0'')"
proof -
  have len: "length ex_two_pages = 3" by (simp add: ex_two_pages_def)
  have one: "spec_chunk_index (map current_page_id ex_two_pages) 1 = 1"
    by code_simp
  have two: "spec_chunk_index (map current_page_id ex_two_pages) 2 = 0"
    by code_simp
  from C2_chunk_id_follows_algorithm[of ex_two_pages] len
  have "map_of (metadata (calculate_chunk_ids ex_two_pages ! 1)) ''id'' =
          Some (PStr (py_str (dict_get (metadata (ex_two_pages ! 1)) ''source'') @ '':'' @
                      py_str (dict_get (metadata (ex_two_pages ! 1)) ''page'') @ '':'' @
                      str_nat (spec_chunk_index (map current_page_id ex_two_pages) 1)))"
   and "map_of (metadata (calculate_chunk_ids ex_two_pages ! 2)) ''id'' =
          Some (PStr (py_str (dict_get (metadata (ex_two_pages ! 2)) ''source'') @ '':'' @
                      py_str (dict_get (metadata (ex_two_pages ! 2)) ''page'') @ '':'' @
                      str_nat (spec_chunk_index (map current_page_id ex_two_pages) 2)))"
    by simp_all
  then show ?thesis
    unfolding one two by (simp add: len) (simp add: example_simps)
qed


section \<open>Uniqueness of the identifiers\<close>

lemma run_ended_iff:
  "p \<notin> set (dropWhile (\<lambda>q. q = p) ps) \<longleftrightarrow>
     (\<forall>j k. j < k \<and> k < length ps \<and> ps ! k = p \<longrightarrow> ps ! j = p)"
proof (induction ps)
  case Nil
  then show ?case by simp
next
  case (Cons q qs)
  show ?case
  proof (cases "q = p")
    case True
    have "(\<forall>j k. j < k \<and> k < length (q # qs) \<and> (q # qs) ! k = p \<longrightarrow> (q # qs) ! j = p)
          \<longleftrightarrow> (\<forall>j k. j < k \<and> k < length qs \<and> qs ! k = p \<longrightarrow> qs ! j = p)"
      (is "?L \<longleftrightarrow> ?R")
    proof
      assume l: ?L
      show ?R
      proof (intro allI impI)
        fix j k assume "j < k \<and> k < length qs \<and> qs ! k = p"
        then have "Suc j < Suc k \<and> Suc k < length (q # qs) \<and> (q # qs) ! Suc k = p" by simp
        with l have "(q # qs) ! Suc j = p" by blast
        then show "qs ! j = p" by simp
      qed
    next
      assume r: ?R
      show ?L
      proof (intro allI impI)
        fix j k assume h: "j < k \<and> k < length (q # qs) \<and> (q # qs) ! k = p"
        show "(q # qs) ! j = p"
        proof (cases j)
          case 0
          with True show ?thesis by simp
        next
          case (Suc j')
          with h obtain k' where k': "k = Suc k'" by (cases k) auto
          with h Suc have "j' < k' \<and> k' < length qs \<and> qs ! k' = p" by simp
          with r have "qs ! j' = p" by blast
          with Suc show ?thesis by simp
        qed
      qed
    qed
    with True Cons show ?thesis by simp
  next
    case False
    have "p \<notin> set (q # qs) \<longleftrightarrow>
        (\<forall>j k. j < k \<and> k < length (q # qs) \<and> (q # qs) ! k = p \<longrightarrow> (q # qs) ! j = p)"
      (is "?A \<longleftrightarrow> ?B")
    proof
      assume ?A
      then show ?B by (metis nth_mem)
    next
      assume b: ?B
      show ?A
      proof
        assume "p \<in> set (q # qs)"
        then obtain k where k: "k < length (q # qs)" "(q # qs) ! k = p"
          by (meson in_set_conv_nth)
        with False have "0 < k" by (cases k) auto
        with b k have "(q # qs) ! 0 = p" by blast
        with False show False by simp
      qed
    qed
    with False show ?thesis by simp
  qed
qed

lemma page_grouped_iff:
  "page_grouped ps \<longleftrightarrow>
     (\<forall>i j k. i < j \<and> j < k \<and> k < length ps \<and> ps ! i = ps ! k \<longrightarrow> ps ! j = ps ! i)"
proof (induction ps)
  case Nil
  then show ?case by simp
next
  case (Cons p ps)
  let ?tail = "\<forall>i j k. i < j \<and> j < k \<and> k < length ps \<and> ps ! i = ps ! k \<longrightarrow> ps ! j = ps ! i"
  let ?head = "\<forall>j k. j < k \<and> k < length ps \<and> ps ! k = p \<longrightarrow> ps ! j = p"
  let ?all = "\<forall>i j k. i < j \<and> j < k \<and> k < length (p # ps) \<and> (p # ps) ! i = (p # ps) ! k
                \<longrightarrow> (p # ps) ! j = (p # ps) ! i"
  have "?all \<longleftrightarrow> ?head \<and> ?tail"
  proof (intro iffI conjI)
    assume a: ?all
    show ?head
    proof (intro allI impI)
      fix j k assume "j < k \<and> k < length ps \<and> ps ! k = p"
      then have "0 < Suc j \<and> Suc j < Suc k \<and> Suc k < length (p # ps) \<and> (p # ps) ! 0 = (p # ps) ! Suc k"
        by simp
      with a have "(p # ps) ! Suc j = (p # ps) ! 0" by blast
      then show "ps ! j = p" by simp
    qed
    show ?tail
    proof (intro allI impI)
      fix i j k assume "i < j \<and> j < k \<and> k < length ps \<and> ps ! i = ps ! k"
      then have "Suc i < Suc j \<and> Suc j < Suc k \<and> Suc k < length (p # ps)
                 \<and> (p # ps) ! Suc i = (p # ps) ! Suc k" by simp
      with a have "(p # ps) ! Suc j = (p # ps) ! Suc i" by blast
      then show "ps ! j = ps ! i" by simp
    qed
  next
    assume ht: "?head \<and> ?tail"
    show ?all
    proof (intro allI impI)
      fix i j k
      assume h: "i < j \<and> j < k \<and> k < length (p # ps) \<and> (p # ps) ! i = (p # ps) ! k"
      then obtain j' k' where jk: "j = Suc j'" "k = Suc k'"
        by (cases j; cases k) auto
      show "(p # ps) ! j = (p # ps) ! i"
      proof (cases i)
        case 0
        with h jk have "j' < k' \<and> k' < length ps \<and> ps ! k' = p" by simp
        with ht have "ps ! j' = p" by blast
        with 0 jk show ?thesis by simp
      next
        case (Suc i')
        with h jk have "i' < j' \<and> j' < k' \<and> k' < length ps \<and> ps ! i' = ps ! k'" by simp
        with ht have "ps ! j' = ps ! i'" by blast
        with Suc jk show ?thesis by simp
      qed
    qed
  qed
  with Cons run_ended_iff[of p ps] show ?case by simp
qed

lemma loop_indices_gt:
  "p \<notin> set (dropWhile (\<lambda>q. q = p) ps) \<Longrightarrow> i < length ps \<Longrightarrow> ps ! i = p \<Longrightarrow>
     n < loop_indices (Some p) n ps ! i"
proof (induction ps arbitrary: n i)
  case Nil
  then show ?case by simp
next
  case (Cons q qs)
  show ?case
  proof (cases "q = p")
    case True
    show ?thesis
    proof (cases i)
      case 0
      with True show ?thesis by (simp add: Let_def next_chunk_index_def)
    next
      case (Suc j)
      with Cons.prems True have "Suc n < loop_indices (Some p) (Suc n) qs ! j"
        by (intro Cons.IH) auto
      with Suc True show ?thesis by (simp add: Let_def next_chunk_index_def)
    qed
  next
    case False
    with Cons.prems have "p \<notin> set (q # qs)" by simp
    with Cons.prems show ?thesis by (metis nth_mem)
  qed
qed

lemma loop_pairs_distinct:
  "page_grouped ps \<Longrightarrow> distinct (zip ps (loop_indices l n ps))"
proof (induction ps arbitrary: l n)
  case Nil
  then show ?case by simp
next
  case (Cons p ps)
  let ?idx = "next_chunk_index l n p"
  have "(p, ?idx) \<notin> set (zip ps (loop_indices (Some p) ?idx ps))"
  proof
    assume "(p, ?idx) \<in> set (zip ps (loop_indices (Some p) ?idx ps))"
    then obtain i where i: "i < length ps" "ps ! i = p"
        "loop_indices (Some p) ?idx ps ! i = ?idx"
      by (auto simp: in_set_zip)
    from Cons.prems have "p \<notin> set (dropWhile (\<lambda>q. q = p) ps)" by simp
    from loop_indices_gt[OF this i(1) i(2), of ?idx] i(3) show False by simp
  qed
  moreover from Cons have "distinct (zip ps (loop_indices (Some p) ?idx ps))" by simp
  ultimately show ?case by (simp add: Let_def)
qed

lemma chunk_ids_of_loop:
  "map chunk_id (calculate_chunk_ids_loop l n chunks) =
     map (\<lambda>(p, idx). PStr (make_chunk_id p idx))
       (zip (map current_page_id chunks) (loop_indices l n (map current_page_id chunks)))"
  by (induction chunks arbitrary: l n) (simp_all add: Let_def)


lemma current_page_id_render: "current_page_id c = render_page_key (page_key c)"
  by (simp add: current_page_id_def render_page_key_def page_key_def Let_def)

lemma page_grouped_map_inj:
  assumes "inj_on f (set xs)" and "page_grouped xs"
  shows "page_grouped (map f xs)"
proof -
  from assms(2)
  have G: "\<forall>i j k. i < j \<and> j < k \<and> k < length xs \<and> xs ! i = xs ! k \<longrightarrow> xs ! j = xs ! i"
    by (rule iffD1[OF page_grouped_iff])
  have "\<forall>i j k. i < j \<and> j < k \<and> k < length (map f xs) \<and> map f xs ! i = map f xs ! k
          \<longrightarrow> map f xs ! j = map f xs ! i"
  proof (intro allI impI)
    fix i j k
    assume h: "i < j \<and> j < k \<and> k < length (map f xs) \<and> map f xs ! i = map f xs ! k"
    then have b: "i < length xs" "j < length xs" "k < length xs" by simp_all
    with h have e: "f (xs ! i) = f (xs ! k)" by simp
    from b have m: "xs ! i \<in> set xs" "xs ! k \<in> set xs" by simp_all
    have "xs ! i = xs ! k" by (rule inj_onD[OF assms(1) e m])
    with h b have "i < j \<and> j < k \<and> k < length xs \<and> xs ! i = xs ! k" by simp
    with G have "xs ! j = xs ! i" by blast
    with b show "map f xs ! j = map f xs ! i" by simp
  qed
  then show ?thesis by (rule iffD2[OF page_grouped_iff])
qed

lemma ids_distinct_of_grouped_identities:
  assumes "page_grouped (map current_page_id chunks)"
  shows "distinct (map chunk_id (calculate_chunk_ids chunks))"
proof -
  let ?ps = "map current_page_id chunks"
  have inj: "inj_on (\<lambda>(p, idx). PStr (make_chunk_id p idx)) (set (zip ?ps (loop_indices None 0 ?ps)))"
    by (auto simp: inj_on_def dest: make_chunk_id_inj)
  show ?thesis
    unfolding calculate_chunk_ids_def chunk_ids_of_loop
    by (simp only: distinct_map inj loop_pairs_distinct[OF assms] simp_thms)
qed

lemma typed_keys_inj:
  assumes "\<forall>key \<in> K. \<exists>s p. key = (PStr s, PInt p)"
  shows "inj_on render_page_key K"
proof (rule inj_onI)
  fix a b assume a: "a \<in> K" and b: "b \<in> K" and eq: "render_page_key a = render_page_key b"
  from assms a obtain s p where sa: "a = (PStr s, PInt p)" by blast
  from assms b obtain t q where sb: "b = (PStr t, PInt q)" by blast
  from eq sa sb have "py_str (PStr s) @ '':'' @ py_str (PInt p) = py_str (PStr t) @ '':'' @ py_str (PInt q)"
    by (simp add: render_page_key_def)
  from typed_page_id_inj[OF this] sa sb show "a = b" by simp
qed

text \<open>
  The rendering of a (source, page) pair is not injective: the integer page 1 and the
  string page \<open>1\<close> give the same page identity. In the sequence below the three pairs are
  pairwise distinct, so every page is a run of one chunk, and still the first and the
  third chunk get the same id.
\<close>

theorem C5_distinct_pairs_same_identity:
  "page_grouped (map page_key ex_mixed_pages) \<and>
   distinct (map page_key ex_mixed_pages) \<and>
   map chunk_id (calculate_chunk_ids ex_mixed_pages)
     = [PStr ''A:1:0'', PStr ''B:0:0'', PStr ''A:1:0''] \<and>
   \<not> distinct (map chunk_id (calculate_chunk_ids ex_mixed_pages))"
proof -
  have ids: "map chunk_id (calculate_chunk_ids ex_mixed_pages)
     = [PStr ''A:1:0'', PStr ''B:0:0'', PStr ''A:1:0'']"
    by (simp add: ex_mixed_pages_def calculate_chunk_ids_def Let_def current_page_id_def
          dict_get_def str_int_def str_nat.simps digit_char_def next_chunk_index_def
          make_chunk_id_def)
  have keys: "map page_key ex_mixed_pages
     = [(PStr ''A'', PInt 1), (PStr ''B'', PInt 0), (PStr ''A'', PStr ''1'')]"
    by (simp add: ex_mixed_pages_def page_key_def dict_get_def)
  show ?thesis unfolding ids keys by simp
qed

text \<open>
  Claim C5, as the code has it. For every chunk sequence on whose (source, page) pairs the
  rendering \<open>source:page\<close> is injective (as it is for string sources and integer pages,
  lemma \<open>typed_keys_inj\<close>) and in which the chunks sharing a (source, page) pair stand next
  to each other, \<open>calculate_chunk_ids\<close> returns one chunk per input chunk, each the input
  chunk with its id \<open>source:page:counter\<close> written, and these ids are pairwise distinct.
\<close>

theorem C5_ids_distinct_when_pairs_grouped:
  assumes "inj_on render_page_key (set (map page_key chunks))"
      and "page_grouped (map page_key chunks)"
  shows "length (calculate_chunk_ids chunks) = length chunks \<and>
         (\<forall>i < length chunks.
            calculate_chunk_ids chunks ! i =
              set_chunk_id (chunks ! i)
                (make_chunk_id (render_page_key (page_key (chunks ! i)))
                   (spec_chunk_index (map current_page_id chunks) i))) \<and>
         distinct (map chunk_id (calculate_chunk_ids chunks))"
proof -
  have eq: "current_page_id = render_page_key \<circ> page_key"
    by (simp add: fun_eq_iff current_page_id_render)
  from page_grouped_map_inj[OF assms]
  have "page_grouped (map current_page_id chunks)"
    by (simp add: eq)
  then have d: "distinct (map chunk_id (calculate_chunk_ids chunks))"
    by (rule ids_distinct_of_grouped_identities)
  have l: "length (calculate_chunk_ids chunks) = length chunks"
    by (simp add: calculate_chunk_ids_def)
  have n: "\<forall>i < length chunks.
            calculate_chunk_ids chunks ! i =
              set_chunk_id (chunks ! i)
                (make_chunk_id (render_page_key (page_key (chunks ! i)))
                   (spec_chunk_index (map current_page_id chunks) i))"
    by (simp add: calculate_chunk_ids_nth current_page_id_render)
  from l n d show ?thesis by (intro conjI)
qed

lemma ex_two_pages_keys:
  "map page_key ex_two_pages = [(PStr ''A'', PInt 0), (PStr ''A'', PInt 0), (PStr ''A'', PInt 1)]"
  by (simp add: ex_two_pages_def mk_chunk_def page_key_def dict_get_def)

theorem C5_ids_distinct_when_pairs_grouped_witness:
  "inj_on render_page_key (set (map page_key ex_two_pages)) \<and>
   page_grouped (map page_key ex_two_pages) \<and>
   length (calculate_chunk_ids ex_two_pages) = 3 \<and>
   distinct (map chunk_id (calculate_chunk_ids ex_two_pages)) \<and>
   calculate_chunk_ids ex_two_pages ! 2 = set_chunk_id (mk_chunk ''gamma'' ''A'' 1) ''A:1:0''"
proof -
  have inj: "inj_on render_page_key (set (map page_key ex_two_pages))"
    by (rule typed_keys_inj) (simp add: ex_two_pages_keys)
  have g: "page_grouped (map page_key ex_two_pages)"
    by (simp add: ex_two_pages_keys)
  have len: "length ex_two_pages = 3" by (simp add: ex_two_pages_def)
  have two: "spec_chunk_index (map current_page_id ex_two_pages) 2 = 0" by code_simp
  have third: "ex_two_pages ! 2 = mk_chunk ''gamma'' ''A'' 1" by (simp add: ex_two_pages_def)
  have rk: "make_chunk_id (render_page_key (page_key (mk_chunk ''gamma'' ''A'' 1))) 0 = ''A:1:0''"
    by (simp add: make_chunk_id_def render_page_key_def page_key_def mk_chunk_def dict_get_def
          str_int_def str_nat.simps digit_char_def)
  note c5 = C5_ids_distinct_when_pairs_grouped[OF inj g]
  note l = c5[THEN conjunct1]
  note n = c5[THEN conjunct2, THEN conjunct1, rule_format, of 2]
  note d = c5[THEN conjunct2, THEN conjunct2]
  have l3: "length (calculate_chunk_ids ex_two_pages) = 3" using l len by simp
  have "(2::nat) < length ex_two_pages" by (simp add: len)
  from n[OF this]
  have t: "calculate_chunk_ids ex_two_pages ! 2 = set_chunk_id (mk_chunk ''gamma'' ''A'' 1) ''A:1:0''"
    by (simp only: two third rk)
  from inj g l3 d t show ?thesis by (intro conjI)
qed


section \<open>\<open>calculate_chunk_ids\<close> writes in place\<close>

lemma metadata_set_chunk_id:
  "metadata (set_chunk_id c s) = dict_set ''id'' (PStr s) (metadata c)"
  by (simp add: set_chunk_id_def)

lemma heap_loop_outside:
  "a \<notin> set as \<Longrightarrow> calculate_chunk_ids_loop_heap l n as h a = h a"
  by (induction as arbitrary: l n h) (simp_all add: Let_def)

lemma heap_loop_inside:
  "a \<in> set as \<Longrightarrow> \<exists>s. calculate_chunk_ids_loop_heap l n as h a = set_chunk_id (h a) s"
proof (induction as arbitrary: l n h)
  case Nil
  then show ?case by simp
next
  case (Cons b bs)
  let ?s = "make_chunk_id (current_page_id (h b)) (next_chunk_index l n (current_page_id (h b)))"
  let ?h = "h(b := set_chunk_id (h b) ?s)"
  let ?l = "Some (current_page_id (h b))"
  let ?n = "next_chunk_index l n (current_page_id (h b))"
  have step: "calculate_chunk_ids_loop_heap l n (b # bs) h a = calculate_chunk_ids_loop_heap ?l ?n bs ?h a"
    by (simp add: Let_def)
  show ?case
  proof (cases "a \<in> set bs")
    case True
    from Cons.IH[OF True, of ?l ?n ?h] obtain s
      where s: "calculate_chunk_ids_loop_heap ?l ?n bs ?h a = set_chunk_id (?h a) s" by blast
    show ?thesis
    proof (cases "a = b")
      case True
      with s step show ?thesis by (auto intro: exI[of _ s])
    next
      case False
      with s step show ?thesis by (auto intro: exI[of _ s])
    qed
  next
    case False
    with Cons.prems have ab: "a = b" by simp
    from False have "calculate_chunk_ids_loop_heap ?l ?n bs ?h a = ?h a"
      by (rule heap_loop_outside)
    with step ab show ?thesis by (auto intro: exI[of _ ?s])
  qed
qed

lemma heap_loop_refines:
  "distinct as \<Longrightarrow>
     map (calculate_chunk_ids_loop_heap l n as h) as = calculate_chunk_ids_loop l n (map h as)"
proof (induction as arbitrary: l n h)
  case Nil
  then show ?case by simp
next
  case (Cons b bs)
  let ?s = "make_chunk_id (current_page_id (h b)) (next_chunk_index l n (current_page_id (h b)))"
  let ?h = "h(b := set_chunk_id (h b) ?s)"
  let ?l = "Some (current_page_id (h b))"
  let ?n = "next_chunk_index l n (current_page_id (h b))"
  from Cons.prems have nb: "b \<notin> set bs" and d: "distinct bs" by simp_all
  have "map (calculate_chunk_ids_loop_heap ?l ?n bs ?h) bs = calculate_chunk_ids_loop ?l ?n (map ?h bs)"
    using Cons.IH[OF d] .
  moreover have "map ?h bs = map h bs" using nb by (auto)
  moreover have "calculate_chunk_ids_loop_heap ?l ?n bs ?h b = ?h b"
    using nb by (rule heap_loop_outside)
  ultimately show ?case by (simp add: Let_def)
qed


text \<open>
  Claim C10. \<open>calculate_chunk_ids\<close> works in place: it returns the list of references it
  was given (so the same chunks in the same order), it leaves every object outside the
  list as it was, and in every chunk of the list the text is unchanged and the metadata
  differs from the old one only by the assignment to the key \<open>id\<close>; every other key keeps
  its value.
\<close>

theorem C10_calculate_chunk_ids_frame:
  "fst (calculate_chunk_ids_heap chunks h) = chunks \<and>
   (\<forall>a. a \<notin> set chunks \<longrightarrow> snd (calculate_chunk_ids_heap chunks h) a = h a) \<and>
   (\<forall>a \<in> set chunks.
      page_content (snd (calculate_chunk_ids_heap chunks h) a) = page_content (h a) \<and>
      (\<exists>s. metadata (snd (calculate_chunk_ids_heap chunks h) a) = dict_set ''id'' (PStr s) (metadata (h a))) \<and>
      (\<forall>k. k \<noteq> ''id'' \<longrightarrow>
         map_of (metadata (snd (calculate_chunk_ids_heap chunks h) a)) k = map_of (metadata (h a)) k))"
proof (intro conjI allI impI ballI)
  show "fst (calculate_chunk_ids_heap chunks h) = chunks"
    by (simp add: calculate_chunk_ids_heap_def)
next
  fix a assume "a \<notin> set chunks"
  then show "snd (calculate_chunk_ids_heap chunks h) a = h a"
    by (simp add: calculate_chunk_ids_heap_def heap_loop_outside)
next
  fix a assume a: "a \<in> set chunks"
  from heap_loop_inside[OF a, of None 0 h] obtain s
    where s: "snd (calculate_chunk_ids_heap chunks h) a = set_chunk_id (h a) s"
    by (auto simp: calculate_chunk_ids_heap_def)
  show "page_content (snd (calculate_chunk_ids_heap chunks h) a) = page_content (h a)"
    by (simp add: s)
  show "\<exists>s. metadata (snd (calculate_chunk_ids_heap chunks h) a) = dict_set ''id'' (PStr s) (metadata (h a))"
    using s by (auto simp: metadata_set_chunk_id)
  fix k :: string assume "k \<noteq> ''id''"
  then show "map_of (metadata (snd (calculate_chunk_ids_heap chunks h) a)) k = map_of (metadata (h a)) k"
    by (simp add: s metadata_set_chunk_id dict_set_def update_conv')
qed


theorem C10_calculate_chunk_ids_frame_witness:
  "(1::nat) \<in> set [0, 1] \<and> (2::nat) \<notin> set [0, 1] \<and> ''page'' \<noteq> ''id'' \<and>
   fst (calculate_chunk_ids_heap [0, 1] ex_heap) = [0, 1] \<and>
   snd (calculate_chunk_ids_heap [0, 1] ex_heap) 2 = mk_chunk [] ''Z'' 9 \<and>
   page_content (snd (calculate_chunk_ids_heap [0, 1] ex_heap) 1) = ''beta'' \<and>
   map_of (metadata (snd (calculate_chunk_ids_heap [0, 1] ex_heap) 1)) ''page'' = Some (PInt 0)"
proof -
  note frame = C10_calculate_chunk_ids_frame[of "[0, 1]" ex_heap]
  have in1: "(1::nat) \<in> set [0, 1]" and out2: "(2::nat) \<notin> set [0, 1]" by simp_all
  have key: "''page'' \<noteq> ''id''" by simp
  note same_list = frame[THEN conjunct1]
  note outside = frame[THEN conjunct2, THEN conjunct1, THEN spec, THEN mp, OF out2]
  note inside = frame[THEN conjunct2, THEN conjunct2, THEN bspec, OF in1]
  note text_kept = inside[THEN conjunct1]
  note key_kept = inside[THEN conjunct2, THEN conjunct2, THEN spec, THEN mp, OF key]
  have "ex_heap 2 = mk_chunk [] ''Z'' 9" by (simp add: ex_heap_def)
  moreover have "page_content (ex_heap 1) = ''beta''" by (simp add: ex_heap_def mk_chunk_def)
  moreover have "map_of (metadata (ex_heap 1)) ''page'' = Some (PInt 0)"
    by (simp add: ex_heap_def mk_chunk_def)
  ultimately show ?thesis
    using in1 out2 key same_list outside text_kept key_kept by (simp only: simp_thms)
qed


section \<open>Opening and persisting the index\<close>


lemma chroma_open_Symlink:
  "chroma_open (Symlink t) =
     (if t = Absent then Inl IndexUnavailable
      else case chroma_open t of
             Inl e \<Rightarrow> Inl e
           | Inr (db, t') \<Rightarrow> Inr (db, Symlink t'))"
  by (cases t) simp_all

lemma opened_not_absent:
  "chroma_open q = Inr (db, p) \<Longrightarrow> p \<noteq> Absent"
  by (cases q) (auto simp: chroma_open_Symlink split: if_splits sum.splits prod.splits)

lemma persist_not_absent: "p \<noteq> Absent \<Longrightarrow> chroma_persist db p \<noteq> Absent"
  by (cases p) simp_all

lemma open_persist_same:
  "chroma_open q = Inr (db, p) \<Longrightarrow> chroma_persist db p = p"
proof (induction q arbitrary: p)
  case (Symlink t)
  then show ?case
    by (auto simp: chroma_open_Symlink split: if_splits sum.splits prod.splits)
qed auto

lemma open_opened:
  "chroma_open q = Inr (db, p) \<Longrightarrow> chroma_open p = Inr (db, p)"
proof (induction q arbitrary: p)
  case (Symlink t)
  from Symlink.prems obtain t' where t: "chroma_open t = Inr (db, t')" and p: "p = Symlink t'"
    by (auto simp: chroma_open_Symlink split: if_splits sum.splits prod.splits)
  from Symlink.IH[OF t] have o: "chroma_open t' = Inr (db, t')" .
  from opened_not_absent[OF t] have "t' \<noteq> Absent" .
  with o p show ?case by (simp add: chroma_open_Symlink)
qed auto

lemma open_after_persist:
  "chroma_open q = Inr (db, p) \<Longrightarrow>
     chroma_open (chroma_persist db' p) = Inr (db', chroma_persist db' p)"
proof (induction q arbitrary: p)
  case (Symlink t)
  from Symlink.prems obtain t' where t: "chroma_open t = Inr (db, t')" and p: "p = Symlink t'"
    by (auto simp: chroma_open_Symlink split: if_splits sum.splits prod.splits)
  from Symlink.IH[OF t]
  have o: "chroma_open (chroma_persist db' t') = Inr (db', chroma_persist db' t')" .
  from opened_not_absent[OF t] have "chroma_persist db' t' \<noteq> Absent"
    by (rule persist_not_absent)
  with o p show ?case by (simp add: chroma_open_Symlink)
qed auto

lemma index_contents_opened:
  "chroma_open (chroma w) = Inr (db, p) \<Longrightarrow> index_contents w = db"
  by (simp add: index_contents_def)

lemma index_contents_unavailable:
  "chroma_open (chroma w) = Inl e \<Longrightarrow> index_contents w = []"
  by (simp add: index_contents_def)


section \<open>Ingestion adds the unseen chunks when the store accepts them\<close>

lemma update_append_fresh:
  "k \<notin> fst ` set xs \<Longrightarrow> AList.update k v (xs @ ys) = xs @ AList.update k v ys"
  by (induction xs) auto

lemma update_fresh:
  "k \<notin> fst ` set al \<Longrightarrow> AList.update k v al = al @ [(k, v)]"
  by (induction al) auto

lemma fold_update_distinct:
  "distinct (map fst kvs) \<Longrightarrow> fst ` set kvs \<inter> fst ` set db = {} \<Longrightarrow>
     fold (\<lambda>(i, d). AList.update i d) kvs db = db @ kvs"
proof (induction kvs arbitrary: db)
  case Nil
  then show ?case by simp
next
  case (Cons kv kvs)
  obtain k v where kv: "kv = (k, v)" by (cases kv)
  from Cons.prems kv have fresh: "k \<notin> fst ` set db" by auto
  from Cons.prems kv have "fst ` set kvs \<inter> fst ` set (db @ [(k, v)]) = {}" by auto
  with Cons.prems Cons.IH[of "db @ [(k, v)]"]
  have "fold (\<lambda>(i, d). AList.update i d) kvs (db @ [(k, v)]) = (db @ [(k, v)]) @ kvs" by simp
  with fresh kv show ?case by (simp add: update_fresh)
qed

lemma zip_ids: "zip (map chunk_id cs) cs = map (\<lambda>c. (chunk_id c, c)) cs"
  by (induction cs) auto


lemma has_id_set_chunk_id [simp]: "has_id (set_chunk_id c s)"
  by (simp add: has_id_def set_chunk_id_def dict_set_def update_conv')

lemma loop_has_id: "c \<in> set (calculate_chunk_ids_loop l n cs) \<Longrightarrow> has_id c"
  by (induction cs arbitrary: l n) (auto simp: Let_def)

lemma calculate_chunk_ids_has_id: "c \<in> set (calculate_chunk_ids cs) \<Longrightarrow> has_id c"
  by (auto simp: calculate_chunk_ids_def dest: loop_has_id)

lemma dict_item_has_id: "has_id c \<Longrightarrow> dict_item (metadata c) ''id'' = Inr (chunk_id c)"
  by (auto simp: has_id_def dict_item_def chunk_id_def dict_get_def)

lemma collect_new_chunks_filter:
  "\<forall>c \<in> set cs. has_id c \<Longrightarrow>
     collect_new_chunks ex acc cs = Inr (acc @ filter (\<lambda>c. chunk_id c \<notin> set ex) cs)"
  by (induction cs arbitrary: acc) (simp_all add: dict_item_has_id)

lemma ids_of_chunks_map:
  "\<forall>c \<in> set cs. has_id c \<Longrightarrow> ids_of_chunks cs = Inr (map chunk_id cs)"
  by (induction cs) (simp_all add: dict_item_has_id)

lemma collect_unseen:
  "collect_new_chunks (db_get_ids db) [] (calculate_chunk_ids chunks) = Inr (unseen_chunks chunks db)"
  by (simp add: collect_new_chunks_filter calculate_chunk_ids_has_id unseen_chunks_def)

lemma unseen_has_id: "c \<in> set (unseen_chunks chunks db) \<Longrightarrow> has_id c"
  by (auto simp: unseen_chunks_def dest: calculate_chunk_ids_has_id)

lemma ids_of_unseen:
  "ids_of_chunks (unseen_chunks chunks db) = Inr (map chunk_id (unseen_chunks chunks db))"
  by (simp add: ids_of_chunks_map unseen_has_id)


lemma loop_idem:
  "calculate_chunk_ids_loop l n (calculate_chunk_ids_loop l n cs) = calculate_chunk_ids_loop l n cs"
  by (induction cs arbitrary: l n) (simp_all add: Let_def)

lemma calculate_chunk_ids_idem:
  "calculate_chunk_ids (calculate_chunk_ids cs) = calculate_chunk_ids cs"
  by (simp add: calculate_chunk_ids_def loop_idem)

lemma unseen_of_identified:
  "unseen_chunks (calculate_chunk_ids chunks) db = unseen_chunks chunks db"
  by (simp add: unseen_chunks_def calculate_chunk_ids_idem)


lemma unseen_keys_fresh:
  "fst ` set (map (\<lambda>c. (chunk_id c, c)) (unseen_chunks chunks db)) \<inter> fst ` set db = {}"
  by (force simp: unseen_chunks_def db_get_ids_def)

lemma db_add_unseen:
  "db_add_documents (unseen_chunks chunks db) (map chunk_id (unseen_chunks chunks db)) db =
     (case run_error chunks db of
        Some e \<Rightarrow> Inl e
      | None \<Rightarrow> Inr (stored_after chunks db))"
proof (cases "run_error chunks db")
  case None
  then have d: "distinct (map chunk_id (unseen_chunks chunks db))"
    and s: "list_all storable (unseen_chunks chunks db)"
    by (auto simp: run_error_def Let_def split: if_splits)
  from d have "distinct (map fst (map (\<lambda>c. (chunk_id c, c)) (unseen_chunks chunks db)))"
    by (simp add: comp_def)
  from fold_update_distinct[OF this unseen_keys_fresh]
  have "fold (\<lambda>(i, d). AList.update i d) (map (\<lambda>c. (chunk_id c, c)) (unseen_chunks chunks db)) db
          = db @ map (\<lambda>c. (chunk_id c, c)) (unseen_chunks chunks db)" .
  with None d s show ?thesis
    by (simp add: db_add_documents_def zip_ids stored_after_def)
next
  case (Some e)
  then show ?thesis
    by (auto simp: run_error_def Let_def db_add_documents_def split: if_splits)
qed

lemma run_error_empty: "unseen_chunks chunks db = [] \<Longrightarrow> run_error chunks db = None"
  by (simp add: run_error_def)

lemma stored_after_empty: "unseen_chunks chunks db = [] \<Longrightarrow> stored_after chunks db = db"
  by (simp add: stored_after_def)

lemma add_to_chroma_result:
  assumes "chroma_open (chroma w) = Inr (db, p)"
  shows "add_to_chroma chunks w =
           (run_error chunks db,
            w\<lparr>chroma := chroma_persist (stored_after chunks db) p,
              stdout := stdout w @ printed_by_add chunks db\<rparr>)"
proof (cases "unseen_chunks chunks db = []")
  case True
  with assms open_persist_same[OF assms] show ?thesis
    by (simp add: add_to_chroma_def collect_unseen Let_def print_def printed_by_add_def
                  run_error_empty stored_after_empty)
next
  case False
  note same = open_persist_same[OF assms]
  show ?thesis
  proof (cases "run_error chunks db")
    case None
    with False assms show ?thesis
      by (simp add: add_to_chroma_def collect_unseen ids_of_unseen db_add_unseen Let_def
                    print_def printed_by_add_def)
  next
    case (Some e)
    then have "stored_after chunks db = db" by (simp add: stored_after_def)
    with Some False assms same show ?thesis
      by (simp add: add_to_chroma_def collect_unseen ids_of_unseen db_add_unseen Let_def
                    print_def printed_by_add_def)
  qed
qed

lemma add_to_chroma_unavailable:
  "chroma_open (chroma w) = Inl e \<Longrightarrow> add_to_chroma chunks w = (Some e, w)"
  by (simp add: add_to_chroma_def)

lemma unseen_after_success:
  assumes "run_error chunks db = None"
  shows "unseen_chunks chunks (stored_after chunks db) = []"
proof -
  have "chunk_id c \<in> fst ` set (stored_after chunks db)" if "c \<in> set (calculate_chunk_ids chunks)" for c
  proof (cases "chunk_id c \<in> set (db_get_ids db)")
    case True
    with assms show ?thesis by (auto simp: stored_after_def db_get_ids_def)
  next
    case False
    with that have "c \<in> set (unseen_chunks chunks db)" by (simp add: unseen_chunks_def)
    with assms show ?thesis by (force simp: stored_after_def)
  qed
  then show ?thesis
    by (simp add: unseen_chunks_def[of chunks "stored_after chunks db"] db_get_ids_def)
qed

lemma stored_after_refused: "run_error chunks db = Some e \<Longrightarrow> stored_after chunks db = db"
  by (simp add: stored_after_def)

lemma run_error_again: "run_error chunks (stored_after chunks db) = run_error chunks db"
proof (cases "run_error chunks db")
  case None
  then show ?thesis by (simp add: unseen_after_success run_error_empty)
next
  case (Some e)
  then show ?thesis by (simp add: stored_after_refused)
qed

lemma stored_after_again: "stored_after chunks (stored_after chunks db) = stored_after chunks db"
proof (cases "run_error chunks db")
  case None
  then show ?thesis by (simp add: unseen_after_success stored_after_empty)
next
  case (Some e)
  then show ?thesis by (simp add: stored_after_refused)
qed

lemma run_error_identified:
  "run_error (calculate_chunk_ids chunks) db = run_error chunks db"
  by (simp add: run_error_def unseen_of_identified)

lemma stored_after_identified:
  "stored_after (calculate_chunk_ids chunks) db = stored_after chunks db"
  by (simp add: stored_after_def unseen_of_identified run_error_identified)

lemma printed_by_add_identified:
  "printed_by_add (calculate_chunk_ids chunks) db = printed_by_add chunks db"
  by (simp add: printed_by_add_def unseen_of_identified)

lemmas eval_ids =
  unseen_chunks_def calculate_chunk_ids_def Let_def db_get_ids_def chunk_id_def
  next_chunk_index_def make_chunk_id_def mk_chunk_def current_page_id_def dict_get_def
  str_int_def str_nat.simps digit_char_def set_chunk_id_def dict_set_def

lemma index_contents_after_run:
  assumes "chroma_open (chroma w) = Inr (db, p)"
  shows "index_contents (w\<lparr>chroma := chroma_persist db' p, stdout := out\<rparr>) = db'"
  using open_after_persist[OF assms, of db'] by (simp add: index_contents_def)

text \<open>
  Claim C1, as the code has it. For every chunk sequence and every prior state of the
  index that can be opened: when the identified chunks whose id is not among the stored
  ids have pairwise distinct ids and no metadata value \<open>None\<close>, \<open>add_to_chroma\<close> returns
  normally and the index afterwards is the old index, entry for entry, followed by exactly
  those chunks, each once under its id, in the order of the sequence. Otherwise the store
  refuses the batch: the call raises and the index is what it was. In both cases every
  entry already present is left untouched.
\<close>

theorem C1_add_to_chroma_adds_unseen_when_accepted:
  assumes "chroma_open (chroma w) = Inr (db, p)"
  shows "index_contents w = db \<and>
         (\<exists>r w'. add_to_chroma chunks w = (r, w') \<and>
            (distinct (map chunk_id (unseen_chunks chunks db)) \<and>
             list_all storable (unseen_chunks chunks db) \<longrightarrow>
               r = None \<and>
               index_contents w' = db @ map (\<lambda>c. (chunk_id c, c)) (unseen_chunks chunks db)) \<and>
            (\<not> (distinct (map chunk_id (unseen_chunks chunks db)) \<and>
                list_all storable (unseen_chunks chunks db)) \<longrightarrow>
               (\<exists>e. r = Some e) \<and> index_contents w' = db))"
proof -
  let ?new = "unseen_chunks chunks db"
  let ?w' = "w\<lparr>chroma := chroma_persist (stored_after chunks db) p,
               stdout := stdout w @ printed_by_add chunks db\<rparr>"
  have run: "add_to_chroma chunks w = (run_error chunks db, ?w')"
    by (rule add_to_chroma_result[OF assms])
  have after: "index_contents ?w' = stored_after chunks db"
    by (rule index_contents_after_run[OF assms])
  have ok: "run_error chunks db = None \<and>
            index_contents ?w' = db @ map (\<lambda>c. (chunk_id c, c)) ?new"
    if "distinct (map chunk_id ?new) \<and> list_all storable ?new"
  proof -
    from that have r: "run_error chunks db = None" by (simp add: run_error_def)
    with after show ?thesis by (simp add: stored_after_def)
  qed
  have refused: "(\<exists>e. run_error chunks db = Some e) \<and> index_contents ?w' = db"
    if "\<not> (distinct (map chunk_id ?new) \<and> list_all storable ?new)"
  proof -
    from that have "run_error chunks db = Some DuplicateIDError \<or> run_error chunks db = Some ValueError"
      by (auto simp: run_error_def Let_def)
    then obtain e where r: "run_error chunks db = Some e" by blast
    with after show ?thesis by (simp add: stored_after_def)
  qed
  from index_contents_opened[OF assms] run ok refused show ?thesis by blast
qed

lemma ex_unseen_in_world:
  "unseen_chunks ex_chunks ex_store = [set_chunk_id (mk_chunk ''gamma'' ''A'' 0) ''A:0:2'']"
  by (simp add: eval_ids ex_chunks_def ex_store_def)

lemma ex_unseen_in_absent:
  "unseen_chunks ex_chunks [] =
     [set_chunk_id (mk_chunk ''alpha'' ''A'' 0) ''A:0:0'',
      set_chunk_id (mk_chunk ''beta'' ''A'' 0) ''A:0:1'',
      set_chunk_id (mk_chunk ''gamma'' ''A'' 0) ''A:0:2'']"
  by (simp add: eval_ids ex_chunks_def)

lemma ex_unseen_interleaved:
  "unseen_chunks ex_interleaved [] =
     [set_chunk_id (mk_chunk ''alpha'' ''A'' 0) ''A:0:0'',
      set_chunk_id (mk_chunk ''beta'' ''A'' 1) ''A:1:0'',
      set_chunk_id (mk_chunk ''gamma'' ''A'' 0) ''A:0:0'']"
  by (simp add: eval_ids ex_interleaved_def)

lemma ex_unseen_none_value:
  "unseen_chunks ex_none_value [] =
     [\<lparr>page_content = ''alpha'',
       metadata = [(''source'', PStr ''A''), (''page'', PInt 0), (''author'', PNone),
                   (''id'', PStr ''A:0:0'')]\<rparr>]"
  by (simp add: eval_ids ex_none_value_def)

lemma storable_set_chunk_id_mk [simp]: "storable (set_chunk_id (mk_chunk t s p) i)"
  by (simp add: storable_def set_chunk_id_def dict_set_def mk_chunk_def)

lemma ex_run_error_interleaved: "run_error ex_interleaved [] = Some DuplicateIDError"
  by (simp add: run_error_def ex_unseen_interleaved)

lemma ex_run_error_none_value: "run_error ex_none_value [] = Some ValueError"
  by (simp add: run_error_def ex_unseen_none_value chunk_id_def dict_get_def storable_def)

lemma ex_run_error_world: "run_error ex_chunks ex_store = None"
  by (simp add: run_error_def ex_unseen_in_world)

lemma ex_run_error_absent: "run_error ex_chunks [] = None"
  by (simp add: run_error_def ex_unseen_in_absent)

lemma ex_stored_after:
  "stored_after ex_chunks ex_store =
     ex_store @ [(PStr ''A:0:2'', set_chunk_id (mk_chunk ''gamma'' ''A'' 0) ''A:0:2'')]"
  by (simp add: stored_after_def ex_run_error_world ex_unseen_in_world)

lemma ex_stored_after_absent:
  "stored_after ex_chunks [] =
     ex_store @ [(PStr ''A:0:2'', set_chunk_id (mk_chunk ''gamma'' ''A'' 0) ''A:0:2'')]"
  by (simp add: stored_after_def ex_run_error_absent ex_unseen_in_absent ex_store_def)

text \<open>
  When pages interleave, two of the three chunks that are not yet stored get the same id:
  the store refuses the batch with \<open>DuplicateIDError\<close> and none of the three is added. A
  chunk with a metadata value \<open>None\<close> is refused with \<open>ValueError\<close> and not added either.
\<close>

theorem C1_refused_batch_adds_nothing:
  "length (unseen_chunks ex_interleaved (index_contents ex_absent_world)) = 3 \<and>
   fst (add_to_chroma ex_interleaved ex_absent_world) = Some DuplicateIDError \<and>
   index_contents (snd (add_to_chroma ex_interleaved ex_absent_world)) = [] \<and>
   length (unseen_chunks ex_none_value (index_contents ex_absent_world)) = 1 \<and>
   fst (add_to_chroma ex_none_value ex_absent_world) = Some ValueError \<and>
   index_contents (snd (add_to_chroma ex_none_value ex_absent_world)) = []"
proof -
  have o: "chroma_open (chroma ex_absent_world) = Inr ([], Directory [])"
    by (simp add: ex_absent_world_def)
  have i: "index_contents ex_absent_world = []" by (simp add: index_contents_def o)
  show ?thesis
    unfolding i add_to_chroma_result[OF o]
    by (simp add: ex_run_error_interleaved ex_run_error_none_value stored_after_def
          ex_unseen_interleaved ex_unseen_none_value index_contents_def)
qed

theorem C1_add_to_chroma_adds_unseen_when_accepted_witness:
  "chroma_open (chroma ex_world) = Inr (ex_store, Directory ex_store) \<and>
   distinct (map chunk_id (unseen_chunks ex_chunks ex_store)) \<and>
   list_all storable (unseen_chunks ex_chunks ex_store) \<and>
   (\<exists>w'. add_to_chroma ex_chunks ex_world = (None, w') \<and>
      index_contents w' =
        ex_store @ [(PStr ''A:0:2'', set_chunk_id (mk_chunk ''gamma'' ''A'' 0) ''A:0:2'')])"
proof -
  have o: "chroma_open (chroma ex_world) = Inr (ex_store, Directory ex_store)"
    by (simp add: ex_world_def)
  have d: "distinct (map chunk_id (unseen_chunks ex_chunks ex_store))"
    by (simp add: ex_unseen_in_world)
  have s: "list_all storable (unseen_chunks ex_chunks ex_store)"
    by (simp add: ex_unseen_in_world)
  from C1_add_to_chroma_adds_unseen_when_accepted[OF o, of ex_chunks] d s obtain w' where
    "add_to_chroma ex_chunks ex_world = (None, w')"
    "index_contents w' = ex_store @ map (\<lambda>c. (chunk_id c, c)) (unseen_chunks ex_chunks ex_store)"
    by blast
  then have "\<exists>w'. add_to_chroma ex_chunks ex_world = (None, w') \<and>
      index_contents w' =
        ex_store @ [(PStr ''A:0:2'', set_chunk_id (mk_chunk ''gamma'' ''A'' 0) ''A:0:2'')]"
    by (auto simp: ex_unseen_in_world)
  with o d s show ?thesis by (intro conjI)
qed


section \<open>Ingestion is idempotent\<close>

text \<open>
  Claim C3. Ingestion is idempotent. For every chunk sequence and every state of the world,
  a second run of \<open>add_to_chroma\<close> on the same sequence (as loaded again, or as the objects
  the first run has written the ids into) ends as the first run did, leaves the path of the
  index and the index contents as the first run left them, and so adds no entry. When the
  first run returns normally, the second finds no chunk whose id is not stored and prints
  that there is nothing to add; when the first run raises, the second raises the same
  exception.
\<close>

theorem C3_ingestion_idempotent:
  "\<exists>r w1 w2.
     add_to_chroma chunks w = (r, w1) \<and>
     add_to_chroma chunks w1 = (r, w2) \<and>
     add_to_chroma (calculate_chunk_ids chunks) w1 = (r, w2) \<and>
     chroma w2 = chroma w1 \<and>
     index_contents w2 = index_contents w1 \<and>
     (r = None \<longrightarrow>
        unseen_chunks chunks (index_contents w1) = [] \<and>
        stdout w2 = stdout w1 @
          [msg_existing (length (remdups (db_get_ids (index_contents w1)))), msg_no_new])"
proof (cases "chroma_open (chroma w)")
  case (Inl e)
  then have "add_to_chroma chunks w = (Some e, w)"
    and "add_to_chroma (calculate_chunk_ids chunks) w = (Some e, w)"
    by (simp_all add: add_to_chroma_unavailable)
  then show ?thesis by auto
next
  case (Inr r)
  then obtain db p where o: "chroma_open (chroma w) = Inr (db, p)" by (cases r) auto
  let ?db1 = "stored_after chunks db"
  let ?p1 = "chroma_persist ?db1 p"
  let ?w1 = "w\<lparr>chroma := ?p1, stdout := stdout w @ printed_by_add chunks db\<rparr>"
  let ?w2 = "?w1\<lparr>chroma := chroma_persist (stored_after chunks ?db1) ?p1,
                 stdout := stdout ?w1 @ printed_by_add chunks ?db1\<rparr>"
  have o1: "chroma_open (chroma ?w1) = Inr (?db1, ?p1)"
    using open_after_persist[OF o, of ?db1] by simp
  have r1: "add_to_chroma chunks w = (run_error chunks db, ?w1)"
    by (rule add_to_chroma_result[OF o])
  have r2: "add_to_chroma chunks ?w1 = (run_error chunks db, ?w2)"
    using add_to_chroma_result[OF o1, of chunks] by (simp add: run_error_again)
  have r3: "add_to_chroma (calculate_chunk_ids chunks) ?w1 = (run_error chunks db, ?w2)"
    using add_to_chroma_result[OF o1, of "calculate_chunk_ids chunks"]
    by (simp add: run_error_again run_error_identified stored_after_identified
                  printed_by_add_identified)
  have same: "chroma_persist (stored_after chunks ?db1) ?p1 = ?p1"
    using open_persist_same[OF o1] by (simp add: stored_after_again)
  have c: "chroma ?w2 = chroma ?w1" using same by simp
  have i1: "index_contents ?w1 = ?db1" by (rule index_contents_opened[OF o1])
  have i2: "index_contents ?w2 = index_contents ?w1"
    using c by (simp add: index_contents_def)
  have ok: "unseen_chunks chunks (index_contents ?w1) = [] \<and>
        stdout ?w2 = stdout ?w1 @
          [msg_existing (length (remdups (db_get_ids (index_contents ?w1)))), msg_no_new]"
    if ne: "run_error chunks db = None"
  proof -
    have u: "unseen_chunks chunks ?db1 = []" by (rule unseen_after_success[OF ne])
    have "printed_by_add chunks ?db1 = [msg_existing (length (remdups (db_get_ids ?db1))), msg_no_new]"
      by (simp add: printed_by_add_def u)
    then have s: "stdout ?w2 = stdout ?w1 @
          [msg_existing (length (remdups (db_get_ids ?db1))), msg_no_new]"
      by simp
    have u': "unseen_chunks chunks (index_contents ?w1) = []"
      using u by (simp only: i1)
    have s': "stdout ?w2 = stdout ?w1 @
          [msg_existing (length (remdups (db_get_ids (index_contents ?w1)))), msg_no_new]"
      using s by (simp only: i1)
    from u' s' show ?thesis by (rule conjI)
  qed
  show ?thesis
  proof (rule exI[of _ "run_error chunks db"], rule exI[of _ ?w1], rule exI[of _ ?w2],
         intro conjI impI)
    show "add_to_chroma chunks w = (run_error chunks db, ?w1)" by (rule r1)
    show "add_to_chroma chunks ?w1 = (run_error chunks db, ?w2)" by (rule r2)
    show "add_to_chroma (calculate_chunk_ids chunks) ?w1 = (run_error chunks db, ?w2)" by (rule r3)
    show "chroma ?w2 = chroma ?w1" by (rule c)
    show "index_contents ?w2 = index_contents ?w1" by (rule i2)
  next
    assume "run_error chunks db = None"
    from ok[OF this] show "unseen_chunks chunks (index_contents ?w1) = []" by (rule conjunct1)
  next
    assume "run_error chunks db = None"
    from ok[OF this] show "stdout ?w2 = stdout ?w1 @
          [msg_existing (length (remdups (db_get_ids (index_contents ?w1)))), msg_no_new]"
      by (rule conjunct2)
  qed
qed

theorem C3_ingestion_idempotent_witness:
  "(\<exists>w1 w2. add_to_chroma ex_chunks ex_world = (None, w1) \<and>
      add_to_chroma ex_chunks w1 = (None, w2) \<and>
      index_contents w1 =
        ex_store @ [(PStr ''A:0:2'', set_chunk_id (mk_chunk ''gamma'' ''A'' 0) ''A:0:2'')] \<and>
      index_contents w2 = index_contents w1 \<and>
      unseen_chunks ex_chunks (index_contents w1) = []) \<and>
   (\<exists>w1 w2. add_to_chroma ex_interleaved ex_absent_world = (Some DuplicateIDError, w1) \<and>
      add_to_chroma ex_interleaved w1 = (Some DuplicateIDError, w2) \<and>
      index_contents w1 = [] \<and> index_contents w2 = [])"
proof -
  have o: "chroma_open (chroma ex_world) = Inr (ex_store, Directory ex_store)"
    by (simp add: ex_world_def)
  have oa: "chroma_open (chroma ex_absent_world) = Inr ([], Directory [])"
    by (simp add: ex_absent_world_def)
  from C3_ingestion_idempotent[of ex_chunks ex_world] obtain r w1 w2 where
    a: "add_to_chroma ex_chunks ex_world = (r, w1)" and
    b: "add_to_chroma ex_chunks w1 = (r, w2)" and
    c: "index_contents w2 = index_contents w1" and
    d: "r = None \<longrightarrow> unseen_chunks ex_chunks (index_contents w1) = []"
    by blast
  from a have r: "r = None" and w1: "index_contents w1 = stored_after ex_chunks ex_store"
    unfolding add_to_chroma_result[OF o]
    using index_contents_after_run[OF o] by (auto simp: ex_run_error_world)
  from C3_ingestion_idempotent[of ex_interleaved ex_absent_world] obtain r' v1 v2 where
    a': "add_to_chroma ex_interleaved ex_absent_world = (r', v1)" and
    b': "add_to_chroma ex_interleaved v1 = (r', v2)" and
    c': "index_contents v2 = index_contents v1"
    by blast
  from a' have r': "r' = Some DuplicateIDError" and v1: "index_contents v1 = stored_after ex_interleaved []"
    unfolding add_to_chroma_result[OF oa]
    using index_contents_after_run[OF oa] by (auto simp: ex_run_error_interleaved)
  have v1': "index_contents v1 = []"
    by (simp add: v1 stored_after_def ex_run_error_interleaved)
  from a b c d r w1 have first: "\<exists>w1 w2. add_to_chroma ex_chunks ex_world = (None, w1) \<and>
      add_to_chroma ex_chunks w1 = (None, w2) \<and>
      index_contents w1 =
        ex_store @ [(PStr ''A:0:2'', set_chunk_id (mk_chunk ''gamma'' ''A'' 0) ''A:0:2'')] \<and>
      index_contents w2 = index_contents w1 \<and>
      unseen_chunks ex_chunks (index_contents w1) = []"
    by (auto simp: ex_stored_after)
  from a' b' c' r' v1' have second:
    "\<exists>w1 w2. add_to_chroma ex_interleaved ex_absent_world = (Some DuplicateIDError, w1) \<and>
      add_to_chroma ex_interleaved w1 = (Some DuplicateIDError, w2) \<and>
      index_contents w1 = [] \<and> index_contents w2 = []"
    by auto
  from first second show ?thesis by (intro conjI)
qed


section \<open>What a populate request returns\<close>


lemma populate_result:
  "populate_database E w = add_to_chroma (split_documents E (load_documents E)) w"
  by (simp add: populate_database_def Let_def)

lemma chatbot_populate:
  assumes "request_method req = ''POST''" and "post_message req = PStr ''Populate''"
    and "chroma_open (chroma w) = Inr (db, p)"
  shows "chatbot E req w =
     ((case run_error (split_documents E (load_documents E)) db of
         Some e \<Rightarrow> Inl e
       | None \<Rightarrow> Inr (JsonResponse (PStr ''Populate'') ''Database populated'')),
      w\<lparr>chroma := chroma_persist (stored_after (split_documents E (load_documents E)) db) p,
        stdout := stdout w @ ''Populate Database''
                    # printed_by_add (split_documents E (load_documents E)) db\<rparr>)"
proof -
  have o: "chroma_open (chroma (w\<lparr>stdout := stdout w @ [''Populate Database'']\<rparr>)) = Inr (db, p)"
    using assms(3) by simp
  show ?thesis
    using assms(1,2)
    by (simp add: chatbot_def populate_result add_to_chroma_result[OF o] print_def
             split: option.splits)
qed

text \<open>
  The response to a populate request does not depend on how many chunks the run adds: on
  an absent index the run adds three chunks, on an index that holds two of them it adds
  one, and the handler answers both with the same two fields.
\<close>

theorem C4_response_same_for_different_counts:
  "fst (chatbot ex_env populate_request ex_absent_world)
     = Inr (JsonResponse (PStr ''Populate'') ''Database populated'') \<and>
   fst (chatbot ex_env populate_request ex_world)
     = Inr (JsonResponse (PStr ''Populate'') ''Database populated'') \<and>
   length (index_contents ex_absent_world) = 0 \<and>
   length (index_contents (snd (chatbot ex_env populate_request ex_absent_world))) = 3 \<and>
   length (index_contents ex_world) = 2 \<and>
   length (index_contents (snd (chatbot ex_env populate_request ex_world))) = 3"
proof -
  have m: "request_method populate_request = ''POST''"
    and p: "post_message populate_request = PStr ''Populate''"
    by (simp_all add: populate_request_def)
  have oa: "chroma_open (chroma ex_absent_world) = Inr ([], Directory [])"
    by (simp add: ex_absent_world_def)
  have ow: "chroma_open (chroma ex_world) = Inr (ex_store, Directory ex_store)"
    by (simp add: ex_world_def)
  have sp: "split_documents ex_env (load_documents ex_env) = ex_chunks"
    by (simp add: ex_env_def)
  show ?thesis
    unfolding chatbot_populate[OF m p oa] chatbot_populate[OF m p ow] sp
    by (simp add: ex_run_error_absent ex_run_error_world ex_stored_after ex_stored_after_absent
          index_contents_def ex_absent_world_def ex_world_def)
       (simp add: ex_store_def)
qed

text \<open>
  Claim C4, as the code has it. For every populate request (a POST whose message is
  \<open>Populate\<close>) on an index that can be opened, the number of new chunks is reported on
  standard output only: after the line \<open>Populate Database\<close> and the line with the number of
  stored ids, the run prints \<open>Adding new documents: n\<close> when \<open>n > 0\<close> chunks have an id that
  was not stored, and \<open>No new documents to add\<close> otherwise. A response, whenever one is
  returned, is the fixed JSON object with message \<open>Populate\<close> and response
  \<open>Database populated\<close>; it carries no count. It is returned whenever the store accepts the
  batch of new chunks.
\<close>

theorem C4_populate_response_is_fixed:
  assumes "request_method req = ''POST''" and "post_message req = PStr ''Populate''"
    and "chroma_open (chroma w) = Inr (db, p)"
  shows "\<exists>r w'. chatbot E req w = (r, w') \<and>
           stdout w' = stdout w @
             [''Populate Database'',
              msg_existing (length (remdups (db_get_ids db))),
              (let n = length (unseen_chunks (split_documents E (load_documents E)) db)
               in if n \<noteq> 0 then msg_adding n else msg_no_new)] \<and>
           (\<forall>resp. r = Inr resp \<longrightarrow>
              resp = JsonResponse (PStr ''Populate'') ''Database populated'') \<and>
           (distinct (map chunk_id (unseen_chunks (split_documents E (load_documents E)) db)) \<and>
            list_all storable (unseen_chunks (split_documents E (load_documents E)) db) \<longrightarrow>
              r = Inr (JsonResponse (PStr ''Populate'') ''Database populated''))"
proof -
  let ?chunks = "split_documents E (load_documents E)"
  have ok: "run_error ?chunks db = None"
    if "distinct (map chunk_id (unseen_chunks ?chunks db)) \<and> list_all storable (unseen_chunks ?chunks db)"
    using that by (simp add: run_error_def)
  show ?thesis
    unfolding chatbot_populate[OF assms]
    using ok by (auto simp: printed_by_add_def Let_def split: option.splits)
qed

theorem C4_populate_response_is_fixed_witness:
  "request_method populate_request = ''POST'' \<and> post_message populate_request = PStr ''Populate'' \<and>
   chroma_open (chroma ex_world) = Inr (ex_store, Directory ex_store) \<and>
   (\<exists>w'. chatbot ex_env populate_request ex_world
            = (Inr (JsonResponse (PStr ''Populate'') ''Database populated''), w') \<and>
          stdout w' = [''Populate Database'', msg_existing 2, msg_adding 1])"
proof -
  have m: "request_method populate_request = ''POST''"
    and p: "post_message populate_request = PStr ''Populate''"
    by (simp_all add: populate_request_def)
  have o: "chroma_open (chroma ex_world) = Inr (ex_store, Directory ex_store)"
    by (simp add: ex_world_def)
  have sp: "split_documents ex_env (load_documents ex_env) = ex_chunks"
    by (simp add: ex_env_def)
  have e: "length (remdups (db_get_ids ex_store)) = 2"
    by (simp add: ex_store_def db_get_ids_def)
  have d: "distinct (map chunk_id (unseen_chunks ex_chunks ex_store))"
    and s: "list_all storable (unseen_chunks ex_chunks ex_store)"
    and n: "length (unseen_chunks ex_chunks ex_store) = 1"
    by (simp_all add: ex_unseen_in_world)
  from C4_populate_response_is_fixed[OF m p o, of ex_env] obtain r w' where
    c: "chatbot ex_env populate_request ex_world = (r, w')" and
    out: "stdout w' = stdout ex_world @
             [''Populate Database'', msg_existing (length (remdups (db_get_ids ex_store))),
              (let n = length (unseen_chunks ex_chunks ex_store)
               in if n \<noteq> 0 then msg_adding n else msg_no_new)]" and
    ok: "distinct (map chunk_id (unseen_chunks ex_chunks ex_store)) \<and>
         list_all storable (unseen_chunks ex_chunks ex_store) \<longrightarrow>
           r = Inr (JsonResponse (PStr ''Populate'') ''Database populated'')"
    unfolding sp by blast
  from ok d s have r: "r = Inr (JsonResponse (PStr ''Populate'') ''Database populated'')" by blast
  from out have out': "stdout w' = [''Populate Database'', msg_existing 2, msg_adding 1]"
    by (simp add: e n ex_world_def)
  from c r out' have "\<exists>w'. chatbot ex_env populate_request ex_world
            = (Inr (JsonResponse (PStr ''Populate'') ''Database populated''), w') \<and>
          stdout w' = [''Populate Database'', msg_existing 2, msg_adding 1]"
    by blast
  with m p o show ?thesis by (intro conjI)
qed


section \<open>The context block and the sources of an answer\<close>

lemma foldl_join:
  "foldl (\<lambda>acc y. acc @ sep @ y) x xs = x @ concat (map (\<lambda>y. sep @ y) xs)"
  by (induction xs arbitrary: x) simp_all

lemma spec_context_block_Cons:
  "spec_context_block sep (x # xs) = x @ concat (map (\<lambda>y. sep @ y) xs)"
  by (induction xs arbitrary: x) simp_all

lemma py_join_spec: "py_join sep items = spec_context_block sep items"
  by (cases items) (simp_all add: py_join_def foldl_join spec_context_block_Cons)

lemma ask_chroma_returns:
  assumes "chroma_open (chroma w) = Inr (db, p)"
    and "similarity_search_with_score E db message k = Inr results"
  shows "ask_chroma E message k w =
           (Inr (answer_locals E message results),
            print (formatted_response (answer_locals E message results)) (w\<lparr>chroma := p\<rparr>))"
  using assms by (simp add: ask_chroma_def answer_locals_def Let_def)

lemma ask_chroma_search_raises:
  assumes "chroma_open (chroma w) = Inr (db, p)"
    and "similarity_search_with_score E db message k = Inl e"
  shows "ask_chroma E message k w = (Inl e, w\<lparr>chroma := p\<rparr>)"
  using assms by (simp add: ask_chroma_def)

lemma retrieve_returns:
  assumes "retrieve E message k w = Inr results"
  obtains db p where "chroma_open (chroma w) = Inr (db, p)"
    and "similarity_search_with_score E db message k = Inr results"
  using assms by (auto simp: retrieve_def split: sum.splits prod.splits)

lemma context_delimiter_chars:
  "context_delimiter = [CHR 0x0A, CHR 0x0A, CHR ''-'', CHR ''-'', CHR ''-'', CHR 0x0A, CHR 0x0A]"
  by (simp add: context_delimiter_def nl_def)

lemma context_of_locals:
  "context_text (answer_locals E message results) =
     spec_context_block context_delimiter (map (\<lambda>r. page_content (fst r)) results)"
proof -
  have m: "(\<lambda>(doc, score). page_content doc) = (\<lambda>r. page_content (fst r))"
    by (simp add: fun_eq_iff split_def)
  show ?thesis by (simp add: answer_locals_def Let_def py_join_spec m)
qed

lemma sources_of_locals:
  "sources (answer_locals E message results) = map (\<lambda>r. dict_get (metadata (fst r)) ''id'') results"
  by (simp add: answer_locals_def Let_def split_def)

text \<open>
  Claim C6. For every query and every result list that the similarity search returns,
  \<open>ask_chroma\<close> returns, and the context block it has built is the concatenation of the
  texts of the results, in the order in which the search returned them, with the delimiter
  of two newlines, three dashes and two newlines between consecutive texts.
\<close>

theorem C6_context_is_delimited_concatenation:
  assumes "retrieve E message n_results w = Inr results"
  shows "\<exists>locals w'. ask_chroma E message n_results w = (Inr locals, w') \<and>
           context_text locals =
             spec_context_block
               [CHR 0x0A, CHR 0x0A, CHR ''-'', CHR ''-'', CHR ''-'', CHR 0x0A, CHR 0x0A]
               (map (\<lambda>r. page_content (fst r)) results)"
proof -
  from assms obtain db p where o: "chroma_open (chroma w) = Inr (db, p)"
    and s: "similarity_search_with_score E db message n_results = Inr results"
    by (rule retrieve_returns)
  from ask_chroma_returns[OF o s] context_of_locals[of E message results]
  show ?thesis by (simp add: context_delimiter_chars)
qed

lemma ex_retrieve:
  "retrieve ex_env (PStr ''what?'') 4 ex_world =
     Inr [(set_chunk_id (mk_chunk ''alpha'' ''A'' 0) ''A:0:0'', 0),
          (set_chunk_id (mk_chunk ''beta'' ''A'' 0) ''A:0:1'', 0)]"
  by (simp add: retrieve_def ex_world_def similarity_search_with_score_def ex_env_def ex_store_def)

theorem C6_context_is_delimited_concatenation_witness:
  "retrieve ex_env (PStr ''what?'') 4 ex_world =
     Inr [(set_chunk_id (mk_chunk ''alpha'' ''A'' 0) ''A:0:0'', 0),
          (set_chunk_id (mk_chunk ''beta'' ''A'' 0) ''A:0:1'', 0)] \<and>
   (\<exists>locals w'. ask_chroma ex_env (PStr ''what?'') 4 ex_world = (Inr locals, w') \<and>
      context_text locals = ''alpha'' @ [CHR 0x0A, CHR 0x0A] @ ''---'' @ [CHR 0x0A, CHR 0x0A] @ ''beta'')"
  using C6_context_is_delimited_concatenation[OF ex_retrieve] ex_retrieve
  by (simp add: set_chunk_id_def mk_chunk_def)

text \<open>
  With \<open>k = 0\<close> the search refuses the request: \<open>ask_chroma\<close> raises \<open>TypeError\<close> and builds no
  context block.
\<close>

theorem C7_zero_results_requested_raises:
  "ask_chroma ex_env (PStr ''what?'') 0 ex_world = (Inl TypeError, ex_world)"
  by (simp add: ask_chroma_def ex_world_def similarity_search_with_score_def)

text \<open>
  Claim C7, as the code has it. For every query with \<open>k > 0\<close> against an empty index (one
  that was absent, or holds no entry), the search returns no result and \<open>ask_chroma\<close>
  returns normally with the empty context block and the empty source list, its response
  ending in \<open>Sources: []\<close>; the index stays empty. For \<open>k \<le> 0\<close> the search raises
  \<open>TypeError\<close>, and so does \<open>ask_chroma\<close>.
\<close>

theorem C7_empty_index_empty_context:
  assumes "chroma_open (chroma w) = Inr (db, p)"
  shows "(0 < n_results \<and> db = [] \<longrightarrow>
            (\<exists>locals w'. ask_chroma E message n_results w = (Inr locals, w') \<and>
               context_text locals = [] \<and>
               sources locals = [] \<and>
               prompt locals = format_template E PROMPT_TEMPLATE [] message \<and>
               formatted_response locals =
                 ''Response: '' @ model_invoke E (format_template E PROMPT_TEMPLATE [] message)
                   @ ''<br>Sources: []'' \<and>
               index_contents w' = [])) \<and>
         (n_results \<le> 0 \<longrightarrow> fst (ask_chroma E message n_results w) = Inl TypeError)"
proof (intro conjI impI)
  assume h: "0 < n_results \<and> db = []"
  then have s: "similarity_search_with_score E db message n_results = Inr []"
    by (simp add: similarity_search_with_score_def)
  from h assms have i: "index_contents (print line (w\<lparr>chroma := p\<rparr>)) = []" for line
    using open_opened[OF assms] by (simp add: index_contents_def print_def)
  from ask_chroma_returns[OF assms s] i
  show "\<exists>locals w'. ask_chroma E message n_results w = (Inr locals, w') \<and>
               context_text locals = [] \<and>
               sources locals = [] \<and>
               prompt locals = format_template E PROMPT_TEMPLATE [] message \<and>
               formatted_response locals =
                 ''Response: '' @ model_invoke E (format_template E PROMPT_TEMPLATE [] message)
                   @ ''<br>Sources: []'' \<and>
               index_contents w' = []"
    by (simp add: answer_locals_def Let_def py_join_def py_list_str_def)
next
  assume "n_results \<le> 0"
  then have "similarity_search_with_score E db message n_results = Inl TypeError"
    by (simp add: similarity_search_with_score_def)
  from ask_chroma_search_raises[OF assms this]
  show "fst (ask_chroma E message n_results w) = Inl TypeError" by simp
qed

theorem C7_empty_index_empty_context_witness:
  "chroma_open (chroma ex_absent_world) = Inr ([], Directory []) \<and>
   (\<exists>locals w'. ask_chroma ex_env (PStr ''what?'') 4 ex_absent_world = (Inr locals, w') \<and>
      context_text locals = [] \<and> sources locals = [] \<and>
      formatted_response locals = ''Response: ok<br>Sources: []'') \<and>
   chroma_open (chroma ex_world) = Inr (ex_store, Directory ex_store) \<and>
   fst (ask_chroma ex_env (PStr ''what?'') 0 ex_world) = Inl TypeError"
proof -
  have oa: "chroma_open (chroma ex_absent_world) = Inr ([], Directory [])"
    by (simp add: ex_absent_world_def)
  have ow: "chroma_open (chroma ex_world) = Inr (ex_store, Directory ex_store)"
    by (simp add: ex_world_def)
  have m: "model_invoke ex_env (format_template ex_env PROMPT_TEMPLATE [] (PStr ''what?'')) = ''ok''"
    by (simp add: ex_env_def)
  from C7_empty_index_empty_context[OF oa, of 4 ex_env "PStr ''what?''"]
  have a: "\<exists>locals w'. ask_chroma ex_env (PStr ''what?'') 4 ex_absent_world = (Inr locals, w') \<and>
      context_text locals = [] \<and> sources locals = [] \<and>
      formatted_response locals = ''Response: ok<br>Sources: []''"
    by (auto simp: m)
  from C7_empty_index_empty_context[OF ow, of 0 ex_env "PStr ''what?''"]
  have b: "fst (ask_chroma ex_env (PStr ''what?'') 0 ex_world) = Inl TypeError" by simp
  from oa a ow b show ?thesis by (intro conjI)
qed

text \<open>
  Claim C8. For every query whose retrieval returns a result list, \<open>ask_chroma\<close> returns,
  and its source list has one entry per result, in the order of the results: \<open>None\<close> at the
  position of a result whose metadata has no \<open>id\<close>, the stored id otherwise. The lookup is
  \<open>metadata.get("id", None)\<close>, which does not raise, and the response ends with the
  rendering of this list.
\<close>

theorem C8_missing_id_gives_none_marker:
  assumes "retrieve E message n_results w = Inr results"
  shows "\<exists>locals w'. ask_chroma E message n_results w = (Inr locals, w') \<and>
           length (sources locals) = length results \<and>
           (\<forall>i < length results.
              (map_of (metadata (fst (results ! i))) ''id'' = None \<longrightarrow> sources locals ! i = PNone) \<and>
              (\<forall>v. map_of (metadata (fst (results ! i))) ''id'' = Some v \<longrightarrow> sources locals ! i = v)) \<and>
           formatted_response locals =
             ''Response: '' @ answer locals @ ''<br>Sources: '' @ py_list_str (sources locals)"
proof -
  from assms obtain db p where o: "chroma_open (chroma w) = Inr (db, p)"
    and s: "similarity_search_with_score E db message n_results = Inr results"
    by (rule retrieve_returns)
  let ?l = "answer_locals E message results"
  have len: "length (sources ?l) = length results" by (simp add: sources_of_locals)
  have pos: "\<forall>i < length results.
              (map_of (metadata (fst (results ! i))) ''id'' = None \<longrightarrow> sources ?l ! i = PNone) \<and>
              (\<forall>v. map_of (metadata (fst (results ! i))) ''id'' = Some v \<longrightarrow> sources ?l ! i = v)"
    by (simp add: sources_of_locals dict_get_def)
  have fr: "formatted_response ?l =
             ''Response: '' @ answer ?l @ ''<br>Sources: '' @ py_list_str (sources ?l)"
    by (simp add: answer_locals_def Let_def)
  from ask_chroma_returns[OF o s] len pos fr show ?thesis by blast
qed

lemma ex_retrieve_no_id:
  "retrieve ex_env (PStr ''what?'') 4 ex_world_no_id =
     Inr [(set_chunk_id (mk_chunk ''alpha'' ''A'' 0) ''A:0:0'', 0), (mk_chunk ''beta'' ''A'' 0, 0)]"
  by (simp add: retrieve_def ex_world_no_id_def similarity_search_with_score_def ex_env_def)

lemma ex_repr: "py_list_str [PStr ''A:0:0'', PNone] = ''['' @ [CHR 0x27] @ ''A:0:0'' @ [CHR 0x27] @ '', None]''"
  by (simp add: py_list_str_def py_join_def py_repr_str_def repr_char_def Let_def)

theorem C8_missing_id_gives_none_marker_witness:
  "retrieve ex_env (PStr ''what?'') 4 ex_world_no_id =
     Inr [(set_chunk_id (mk_chunk ''alpha'' ''A'' 0) ''A:0:0'', 0), (mk_chunk ''beta'' ''A'' 0, 0)] \<and>
   map_of (metadata (mk_chunk ''beta'' ''A'' 0)) ''id'' = None \<and>
   (\<exists>locals w'. ask_chroma ex_env (PStr ''what?'') 4 ex_world_no_id = (Inr locals, w') \<and>
      sources locals = [PStr ''A:0:0'', PNone] \<and>
      formatted_response locals =
        ''Response: ok<br>Sources: ['' @ [CHR 0x27] @ ''A:0:0'' @ [CHR 0x27] @ '', None]'')"
proof -
  let ?rs = "[(set_chunk_id (mk_chunk ''alpha'' ''A'' 0) ''A:0:0'', 0::nat), (mk_chunk ''beta'' ''A'' 0, 0)]"
  have none: "map_of (metadata (mk_chunk ''beta'' ''A'' 0)) ''id'' = None"
    by (simp add: mk_chunk_def)
  have some: "map_of (metadata (set_chunk_id (mk_chunk ''alpha'' ''A'' 0) ''A:0:0'')) ''id''
                = Some (PStr ''A:0:0'')"
    by (simp add: mk_chunk_def set_chunk_id_def dict_set_def)
  from C8_missing_id_gives_none_marker[OF ex_retrieve_no_id] obtain locals w' where
    r: "ask_chroma ex_env (PStr ''what?'') 4 ex_world_no_id = (Inr locals, w')" and
    len: "length (sources locals) = length ?rs" and
    pos: "\<forall>i < length ?rs.
              (map_of (metadata (fst (?rs ! i))) ''id'' = None \<longrightarrow> sources locals ! i = PNone) \<and>
              (\<forall>v. map_of (metadata (fst (?rs ! i))) ''id'' = Some v \<longrightarrow> sources locals ! i = v)" and
    fr: "formatted_response locals =
             ''Response: '' @ answer locals @ ''<br>Sources: '' @ py_list_str (sources locals)"
    by blast
  from pos[rule_format, of 0] some have s0: "sources locals ! 0 = PStr ''A:0:0''" by simp
  from pos[rule_format, of 1] none have s1: "sources locals ! 1 = PNone" by simp
  from len have l2: "length (sources locals) = 2" by simp
  have src: "sources locals = [PStr ''A:0:0'', PNone]"
  proof (rule nth_equalityI)
    show "length (sources locals) = length [PStr ''A:0:0'', PNone]" using l2 by simp
    fix i assume "i < length (sources locals)"
    with l2 have "i = 0 \<or> i = 1" by auto
    with s0 s1 show "sources locals ! i = [PStr ''A:0:0'', PNone] ! i" by auto
  qed
  have ans: "answer locals = ''ok''"
    using r ask_chroma_returns[of ex_world_no_id _ _ ex_env "PStr ''what?''" 4 ?rs]
          ex_retrieve_no_id
    by (auto simp: retrieve_def answer_locals_def Let_def ex_env_def split: sum.splits prod.splits)
  from fr have "formatted_response locals =
        ''Response: ok<br>Sources: ['' @ [CHR 0x27] @ ''A:0:0'' @ [CHR 0x27] @ '', None]''"
    by (simp add: src ans ex_repr)
  with r src have "\<exists>locals w'. ask_chroma ex_env (PStr ''what?'') 4 ex_world_no_id = (Inr locals, w') \<and>
      sources locals = [PStr ''A:0:0'', PNone] \<and>
      formatted_response locals =
        ''Response: ok<br>Sources: ['' @ [CHR 0x27] @ ''A:0:0'' @ [CHR 0x27] @ '', None]''"
    by blast
  with ex_retrieve_no_id none show ?thesis by (intro conjI)
qed


section \<open>Clearing the index\<close>




end
